theory Spec2Isabelle
  imports Complex_Main
begin

section \<open>Track-V backend: detection, scoring, tracking, alerts and feeds\<close>

text \<open>
  A shallow embedding of the Python sources. Python floats are read as real numbers
  (in the stability tracker, where a rounded square root decides a branch, the float
  operations are parameters), Python ints as \<open>int\<close>, dictionaries with a fixed set of
  keys as records, other dictionaries as maps or (where the insertion order is observable)
  association lists.
  Every exception the sources can raise is a value of \<open>py_error\<close>; a function that
  can raise returns \<open>py_error + 'a\<close>.
\<close>

datatype py_error =
    ZeroDivisionError
  | DetectorError
  | FileNotFoundError
  | OpenError
  | ResolveError
  | StoreError
  | IndexError

subsection \<open>Detections (backend/video_processor.py, backend/video_processor/opencv_analyzer.py)\<close>

text \<open>One box of a YOLO result: \<open>box.cls[0]\<close>, \<open>box.conf[0]\<close>, \<open>box.xyxy[0]\<close>.\<close>

record box =
  cls :: int
  conf :: real
  xyxy :: "real \<times> real \<times> real \<times> real"

text \<open>A YOLO result is its \<open>boxes\<close>; the model returns a list of results or raises.\<close>

type_synonym yolo_result = "box list"

type_synonym 'f yolo = "'f \<Rightarrow> py_error + yolo_result list"

text \<open>An entry of the \<open>detections\<close> list: \<open>{"type", "confidence", "bbox"}\<close>.\<close>

record detection =
  d_type :: string
  confidence :: real
  bbox :: "real list"

text \<open>
  The dictionary a detector returns. \<open>confidence_scores\<close> and \<open>avg_confidence\<close>
  are keys only some of the dictionaries have: \<open>None\<close> is an absent key.
  \<open>vehicle_types\<close> is a dictionary from type name to count, kept in insertion order.
\<close>

record detections =
  vehicle_count :: int
  vehicle_types :: "(string \<times> int) list"
  detections :: "detection list"
  confidence_scores :: "real list option"
  avg_confidence :: "real option"

text \<open>\<open>d[k] = d.get(k, 0) + 1\<close>, and \<open>d[k] += 1\<close> on a \<open>defaultdict(int)\<close>.\<close>

fun dict_incr :: "(string \<times> int) list \<Rightarrow> string \<Rightarrow> (string \<times> int) list" where
  "dict_incr [] k = [(k, 1)]"
| "dict_incr ((k', v) # kvs) k =
     (if k' = k then (k', v + 1) # kvs else (k', v) # dict_incr kvs k)"

text \<open>\<open>VehicleDetector.vehicle_classes\<close> and \<open>VehicleDetector._get_vehicle_type\<close>.\<close>

definition vehicle_classes :: "int list" where
  "vehicle_classes = [2, 3, 5, 7]"

definition get_vehicle_type :: "int \<Rightarrow> string" where
  "get_vehicle_type class_id =
     (if class_id = 2 then ''car''
      else if class_id = 3 then ''motorcycle''
      else if class_id = 5 then ''bus''
      else if class_id = 7 then ''truck''
      else ''unknown'')"

definition bbox_of :: "box \<Rightarrow> real list" where
  "bbox_of b = (case xyxy b of (x1, y1, x2, y2) \<Rightarrow> [x1, y1, x2, y2])"

text \<open>The body of the inner loop of \<open>VehicleDetector.detect_vehicles\<close>, for one box.\<close>

definition detect_box :: "detections \<Rightarrow> box \<Rightarrow> detections" where
  "detect_box d b =
     (if cls b \<in> set vehicle_classes then
        d\<lparr>vehicle_count := vehicle_count d + 1,
          confidence_scores :=
            Some ((case confidence_scores d of None \<Rightarrow> [] | Some cs \<Rightarrow> cs) @ [conf b]),
          vehicle_types := dict_incr (vehicle_types d) (get_vehicle_type (cls b)),
          detections := detections d @
            [\<lparr>d_type = get_vehicle_type (cls b), confidence = conf b, bbox = bbox_of b\<rparr>]\<rparr>
      else d)"

definition detect_results :: "detections \<Rightarrow> yolo_result list \<Rightarrow> detections" where
  "detect_results d results = foldl (\<lambda>d' result. foldl detect_box d' result) d results"

definition detect_init :: detections where
  "detect_init = \<lparr>vehicle_count = 0, vehicle_types = [], detections = [],
                   confidence_scores = Some [], avg_confidence = None\<rparr>"

definition with_avg_confidence :: "detections \<Rightarrow> detections" where
  "with_avg_confidence d =
     (case confidence_scores d of
        Some (c # cs) \<Rightarrow> d\<lparr>avg_confidence := Some (sum_list (c # cs) / real (length (c # cs)))\<rparr>
      | _ \<Rightarrow> d\<lparr>avg_confidence := Some 0\<rparr>)"

text \<open>The dictionary of the \<open>except\<close> branch of \<open>detect_vehicles\<close>.\<close>

definition detect_fallback :: detections where
  "detect_fallback = \<lparr>vehicle_count = 0, vehicle_types = [], detections = [],
                       confidence_scores = None, avg_confidence = Some 0\<rparr>"

text \<open>The \<open>try\<close> block of \<open>detect_vehicles\<close>: only the call of the model can raise.\<close>

definition detect_vehicles_try :: "'f yolo \<Rightarrow> 'f \<Rightarrow> py_error + detections" where
  "detect_vehicles_try model frame =
     (case model frame of
        Inl e \<Rightarrow> Inl e
      | Inr results \<Rightarrow> Inr (with_avg_confidence (detect_results detect_init results)))"

text \<open>\<open>VehicleDetector.detect_vehicles\<close>: \<open>except Exception\<close> returns the fallback.\<close>

definition detect_vehicles :: "'f yolo \<Rightarrow> 'f \<Rightarrow> py_error + detections" where
  "detect_vehicles model frame =
     (case detect_vehicles_try model frame of
        Inl e \<Rightarrow> Inr detect_fallback
      | Inr d \<Rightarrow> Inr d)"

text \<open>\<open>OpenCVAnalyzer.vehicle_classes\<close>: a dictionary from class to type name.\<close>

definition cv_vehicle_classes :: "int \<Rightarrow> string option" where
  "cv_vehicle_classes c =
     (if c = 2 then Some ''car''
      else if c = 3 then Some ''motorbike''
      else if c = 5 then Some ''bus''
      else if c = 7 then Some ''truck''
      else None)"

definition process_box :: "detections \<Rightarrow> box \<Rightarrow> detections" where
  "process_box d b =
     (case cv_vehicle_classes (cls b) of
        Some vehicle_type \<Rightarrow>
          d\<lparr>vehicle_count := vehicle_count d + 1,
            vehicle_types := dict_incr (vehicle_types d) vehicle_type,
            detections := detections d @
              [\<lparr>d_type = vehicle_type, confidence = conf b, bbox = bbox_of b\<rparr>]\<rparr>
      | None \<Rightarrow> d)"

definition process_init :: detections where
  "process_init = \<lparr>vehicle_count = 0, vehicle_types = [], detections = [],
                    confidence_scores = None, avg_confidence = None\<rparr>"

text \<open>\<open>OpenCVAnalyzer.process_frame\<close>: no handler, an error of the model propagates.\<close>

definition process_frame :: "'f yolo \<Rightarrow> 'f \<Rightarrow> py_error + detections" where
  "process_frame model frame =
     (case model frame of
        Inl e \<Rightarrow> Inl e
      | Inr results \<Rightarrow>
          Inr (foldl (\<lambda>d result. foldl process_box d result) process_init results))"

subsection \<open>Congestion scorer (backend/video_processor.py)\<close>

record congestion =
  congestion_score :: real
  congestion_level :: string
  vehicle_density :: real
  c_vehicle_count :: int

text \<open>
  \<open>VehicleDetector.analyze_congestion\<close>. \<open>frame_shape\<close> is (rows, columns); a
  frame of area 0 makes the division raise.
\<close>

definition analyze_congestion :: "detections \<Rightarrow> int \<times> int \<Rightarrow> py_error + congestion" where
  "analyze_congestion dets frame_shape =
     (let frame_area = fst frame_shape * snd frame_shape;
          count = vehicle_count dets
      in if frame_area = 0 then Inl ZeroDivisionError
         else
           let density = (real_of_int count / real_of_int frame_area) * 100000;
               (level, score) =
                 (if density < 2 then (''low'', density * 10)
                  else if density < 5 then (''medium'', 20 + (density - 2) * 10)
                  else if density < 10 then (''high'', 50 + (density - 5) * 10)
                  else (''critical'', 100))
           in Inr \<lparr>congestion_score = min score 100, congestion_level = level,
                    vehicle_density = density, c_vehicle_count = count\<rparr>)"

text \<open>The density the scorer computes, as the specification writes it.\<close>

definition density_of :: "int \<Rightarrow> int \<Rightarrow> real" where
  "density_of count area = (real_of_int count / real_of_int area) * 100000"

text \<open>
  The consistency of a detection dictionary: the count is the length of the detections
  list and the sum of the histogram.
\<close>

definition consistent :: "detections \<Rightarrow> bool" where
  "consistent d \<longleftrightarrow>
     vehicle_count d = int (length (detections d))
     \<and> vehicle_count d = sum_list (map snd (vehicle_types d))"

text \<open>A model over frames numbered by \<open>nat\<close>: it fails on frame 0 and finds four boxes elsewhere.\<close>

definition sample_model :: "nat yolo" where
  "sample_model frame =
     (if frame = 0 then Inl DetectorError
      else Inr [[\<lparr>cls = 2, conf = 0.9, xyxy = (10, 20, 50, 60)\<rparr>,
                 \<lparr>cls = 0, conf = 0.8, xyxy = (0, 0, 5, 5)\<rparr>,
                 \<lparr>cls = 7, conf = 0.7, xyxy = (100, 120, 150, 160)\<rparr>,
                 \<lparr>cls = 2, conf = 0.6, xyxy = (200, 220, 250, 260)\<rparr>]])"

subsection \<open>Stability tracker (backend/video_processor/opencv_analyzer.py)\<close>









subsection \<open>Python's \<open>str\<close> and \<open>int\<close> on numbers\<close>

definition digit_char :: "nat \<Rightarrow> char" where
  "digit_char n = ''0123456789'' ! (n mod 10)"

fun str_nat :: "nat \<Rightarrow> string" where
  "str_nat n = (if n < 10 then [digit_char n] else str_nat (n div 10) @ [digit_char n])"

text \<open>\<open>str(i)\<close>, as an f-string formats an \<open>int\<close>.\<close>

definition py_str :: "int \<Rightarrow> string" where
  "py_str i = (if i < 0 then ''-'' @ str_nat (nat (- i)) else str_nat (nat i))"

text \<open>\<open>int(x)\<close> on a float truncates towards zero.\<close>

definition py_int :: "real \<Rightarrow> int" where
  "py_int x = (if 0 \<le> x then \<lfloor>x\<rfloor> else \<lceil>x\<rceil>)"

subsection \<open>Alert generator (backend/vehicle_detection.py)\<close>

text \<open>A row of the table \<open>congestion_alerts\<close>.\<close>

record alert =
  junction_id :: int
  video_feed_id :: "int option"
  alert_type :: string
  stable_duration_minutes :: int
  alert_status :: string

text \<open>
  The Supabase client as the analyzer uses it: the rows of \<open>congestion_alerts\<close>, and
  whether a query or an insert raises (the store is external and may be unreachable).
\<close>

record supabase_client =
  congestion_alerts :: "alert list"
  select_raises :: bool
  insert_raises :: bool

text \<open>
  \<open>table("congestion_alerts").select("*").eq("junction_id", j).eq("alert_status", st)
  .eq("alert_type", ty).execute().data\<close>.
\<close>

definition select_alerts ::
  "supabase_client \<Rightarrow> int \<Rightarrow> string \<Rightarrow> string \<Rightarrow> py_error + alert list" where
  "select_alerts client j st ty =
     (if select_raises client then Inl StoreError
      else Inr (filter (\<lambda>a. junction_id a = j \<and> alert_status a = st \<and> alert_type a = ty)
                  (congestion_alerts client)))"

text \<open>\<open>table("congestion_alerts").insert(alert_data).execute()\<close>, with \<open>data[0]\<close> the row.\<close>

definition insert_alert ::
  "supabase_client \<Rightarrow> alert \<Rightarrow> py_error + (alert \<times> supabase_client)" where
  "insert_alert client alert_data =
     (if insert_raises client then Inl StoreError
      else Inr (alert_data,
                client\<lparr>congestion_alerts := congestion_alerts client @ [alert_data]\<rparr>))"

text \<open>A value of the dictionary \<open>CongestionAnalyzer.vehicle_tracking\<close>; times in seconds.\<close>

record tracking =
  first_detected :: real
  tr_vehicle_count :: int
  last_update :: real

record congestion_analyzer =
  supabase :: supabase_client
  vehicle_tracking :: "string \<rightharpoonup> tracking"

definition stable_threshold_minutes :: int where
  "stable_threshold_minutes = 10"

text \<open>\<open>try: insert; alerts_created.append(alert.data[0]) except Exception: log\<close>.\<close>

definition try_insert ::
  "alert list \<times> supabase_client \<Rightarrow> alert \<Rightarrow> alert list \<times> supabase_client" where
  "try_insert acc alert_data =
     (case insert_alert (snd acc) alert_data of
        Inl e \<Rightarrow> acc
      | Inr (row, client') \<Rightarrow> (fst acc @ [row], client'))"

text \<open>
  \<open>CongestionAnalyzer.check_and_create_alerts\<close>, at the clock reading
  \<open>current_time\<close> (seconds): the list \<open>alerts_created\<close> and the analyzer afterwards.
  When the first query raises, the outer handler logs and the empty list is returned.
\<close>

definition check_and_create_alerts ::
  "congestion_analyzer \<Rightarrow> real \<Rightarrow> int \<Rightarrow> detections \<Rightarrow> int option
     \<Rightarrow> alert list \<times> congestion_analyzer" where
  "check_and_create_alerts self current_time j dets feed =
     (case select_alerts (supabase self) j ''active'' ''stable_vehicle'' of
        Inl e \<Rightarrow> ([], self)
      | Inr stable_vehicles \<Rightarrow>
          let acc1 =
                (if vehicle_count dets > 30 then
                   try_insert ([], supabase self)
                     \<lparr>junction_id = j, video_feed_id = feed, alert_type = ''high_congestion'',
                      stable_duration_minutes = 0, alert_status = ''active''\<rparr>
                 else ([], supabase self));
              vehicle_key = ''junction_'' @ py_str j;
              tracking_data =
                (case vehicle_tracking self vehicle_key of
                   None \<Rightarrow> \<lparr>first_detected = current_time,
                             tr_vehicle_count = vehicle_count dets,
                             last_update = current_time\<rparr>
                 | Some t \<Rightarrow> t\<lparr>last_update := current_time,
                               tr_vehicle_count := vehicle_count dets\<rparr>);
              tracked = (vehicle_tracking self)(vehicle_key \<mapsto> tracking_data);
              duration = (current_time - first_detected tracking_data) / 60
          in if duration > real_of_int stable_threshold_minutes then
               let has_alert =
                     list_ex (\<lambda>a. stable_duration_minutes a \<ge> stable_threshold_minutes)
                       stable_vehicles;
                   acc2 =
                     (if \<not> has_alert then
                        try_insert acc1
                          \<lparr>junction_id = j, video_feed_id = feed, alert_type = ''stable_vehicle'',
                           stable_duration_minutes = py_int duration, alert_status = ''active''\<rparr>
                      else acc1)
               in (fst acc2, \<lparr>supabase = snd acc2, vehicle_tracking = tracked\<rparr>)
             else if vehicle_count dets < 10 then
               (fst acc1, \<lparr>supabase = snd acc1, vehicle_tracking = tracked(vehicle_key := None)\<rparr>)
             else
               (fst acc1, \<lparr>supabase = snd acc1, vehicle_tracking = tracked\<rparr>))"

text \<open>
  Consecutive calls for one junction: each sample is a clock reading and the vehicle
  count of the detections passed; the result collects what every call created.
\<close>

fun check_samples ::
  "congestion_analyzer \<Rightarrow> int \<Rightarrow> (real \<times> int) list \<Rightarrow> alert list list \<times> congestion_analyzer" where
  "check_samples self j [] = ([], self)"
| "check_samples self j ((t, n) # samples) =
     (let (created, self') =
            check_and_create_alerts self t j (detect_fallback\<lparr>vehicle_count := n\<rparr>) None;
          (rest, self'') = check_samples self' j samples
      in (created # rest, self''))"

definition active_alerts :: "congestion_analyzer \<Rightarrow> int \<Rightarrow> string \<Rightarrow> alert list" where
  "active_alerts self j ty =
     filter (\<lambda>a. junction_id a = j \<and> alert_status a = ''active'' \<and> alert_type a = ty)
       (congestion_alerts (supabase self))"

definition fresh_analyzer :: congestion_analyzer where
  "fresh_analyzer =
     \<lparr>supabase = \<lparr>congestion_alerts = [], select_raises = False, insert_raises = False\<rparr>,
      vehicle_tracking = Map.empty\<rparr>"

subsection \<open>Alert service (notifications/alert_service.py)\<close>

text \<open>A row of the table \<open>alerts\<close>, as \<open>create_alert\<close> inserts it.\<close>

record service_alert =
  sa_junction_id :: string
  sa_alert_type :: string
  severity :: string
  title :: string
  description :: string
  created_by :: string

text \<open>
  The database connection of the service: the committed rows of \<open>alerts\<close>, and
  whether a statement raises.
\<close>

record db_connection =
  alerts :: "service_alert list"
  execute_raises :: bool

text \<open>
  \<open>AlertService.create_alert\<close>: insert, commit, notify, return the id (here the row's
  index). On an exception it rolls back and raises again. The notifications handle their
  own exceptions and write to other tables only; they are left out.
\<close>

definition create_alert ::
  "db_connection \<Rightarrow> string \<Rightarrow> string \<Rightarrow> string \<Rightarrow> string \<Rightarrow> string \<Rightarrow> string
     \<Rightarrow> py_error + (nat \<times> db_connection)" where
  "create_alert db j ty sev ttl descr by_whom =
     (if execute_raises db then Inl StoreError
      else Inr (length (alerts db),
                db\<lparr>alerts := alerts db @
                     [\<lparr>sa_junction_id = j, sa_alert_type = ty, severity = sev, title = ttl,
                       description = descr, created_by = by_whom\<rparr>]\<rparr>))"

text \<open>The row \<open>detect_bottleneck_and_alert\<close> hands to \<open>create_alert\<close>.\<close>

definition bottleneck_alert :: "string \<Rightarrow> int \<Rightarrow> int \<Rightarrow> service_alert" where
  "bottleneck_alert j vehicles stable_vehicles =
     \<lparr>sa_junction_id = j, sa_alert_type = ''bottleneck'',
      severity = (if stable_vehicles > 10 then ''critical'' else ''high''),
      title = ''Traffic Bottleneck Detected at Junction '' @ j,
      description = ''High congestion: '' @ py_str vehicles @ '' vehicles, '' @ py_str stable_vehicles
                    @ '' stable for 10+ mins'',
      created_by = ''system''\<rparr>"

text \<open>
  \<open>AlertService.detect_bottleneck_and_alert\<close>: the database afterwards. An exception
  of \<open>create_alert\<close> is logged and swallowed.
\<close>

definition detect_bottleneck_and_alert ::
  "db_connection \<Rightarrow> string \<Rightarrow> int \<Rightarrow> int \<Rightarrow> db_connection" where
  "detect_bottleneck_and_alert db j vehicles stable_vehicles =
     (if vehicles > 100 \<or> stable_vehicles > 5 then
        let a = bottleneck_alert j vehicles stable_vehicles
        in case create_alert db j (sa_alert_type a) (severity a) (title a) (description a)
                  (created_by a) of
             Inl e \<Rightarrow> db
           | Inr (alert_id, db') \<Rightarrow> db'
      else db)"

definition empty_db :: db_connection where
  "empty_db = \<lparr>alerts = [], execute_raises = False\<rparr>"

subsection \<open>The tracker of \<open>VehicleDetector\<close> (backend/video_processor.py)\<close>

text \<open>
  A key of \<open>VehicleDetector.stable_vehicles\<close> is the string
  \<open>f"{frame_id}_{bbox[0]}_{bbox[1]}"\<close>: the frame id and the origin of the box, kept
  here as a triple. Indexing a box with fewer than two coordinates raises.
\<close>

type_synonym vd_key = "int \<times> real \<times> real"

definition vd_vehicle_key :: "int \<Rightarrow> detection \<Rightarrow> py_error + vd_key" where
  "vd_vehicle_key frame_id d =
     (case bbox d of
        x # y # rest \<Rightarrow> Inr (frame_id, x, y)
      | _ \<Rightarrow> Inl IndexError)"

text \<open>A value of the dictionary: \<open>{"count", "first_seen", "bbox"}\<close>; times in seconds.\<close>

record vd_vehicle =
  vd_count :: int
  first_seen :: real
  vd_bbox :: "real list"

text \<open>An element of the list the tracker returns.\<close>

record stable_alert =
  vehicle_key :: vd_key
  sa_stable_duration_minutes :: int
  sa_bbox :: "real list"
  sa_severity :: string

text \<open>
  The first loop of \<open>VehicleDetector.detect_stable_vehicles\<close>, over the detections;
  the dictionary is kept in insertion order.
\<close>

fun vd_track ::
  "real \<Rightarrow> int \<Rightarrow> (vd_key \<times> vd_vehicle) list \<Rightarrow> detection list
     \<Rightarrow> py_error + (vd_key \<times> vd_vehicle) list" where
  "vd_track current_time frame_id sv [] = Inr sv"
| "vd_track current_time frame_id sv (d # ds) =
     (case vd_vehicle_key frame_id d of
        Inl e \<Rightarrow> Inl e
      | Inr k \<Rightarrow>
          vd_track current_time frame_id
            (case map_of sv k of
               None \<Rightarrow> sv @ [(k, \<lparr>vd_count = 1, first_seen = current_time, vd_bbox = bbox d\<rparr>)]
             | Some v \<Rightarrow>
                 map (\<lambda>(k', v'). if k' = k then (k', v'\<lparr>vd_count := vd_count v' + 1\<rparr>)
                                  else (k', v')) sv)
            ds)"

text \<open>
  \<open>VehicleDetector.detect_stable_vehicles\<close> at the clock reading \<open>current_time\<close>:
  the alerts and the dictionary afterwards. The second loop runs over a copy of the
  items: an entry older than the threshold is reported, a younger one is deleted when it
  is younger than the threshold minus five minutes.
\<close>

definition vd_detect_stable_vehicles ::
  "(vd_key \<times> vd_vehicle) list \<Rightarrow> real \<Rightarrow> detections \<Rightarrow> int \<Rightarrow> int
     \<Rightarrow> py_error + (stable_alert list \<times> (vd_key \<times> vd_vehicle) list)" where
  "vd_detect_stable_vehicles sv current_time dets frame_id stability_threshold =
     (case vd_track current_time frame_id sv (detections dets) of
        Inl e \<Rightarrow> Inl e
      | Inr sv' \<Rightarrow>
          let duration = (\<lambda>v. (current_time - first_seen v) / 60)
          in Inr (map (\<lambda>(k, v).
                         \<lparr>vehicle_key = k, sa_stable_duration_minutes = py_int (duration v),
                          sa_bbox = vd_bbox v,
                          sa_severity = (if duration v > 20 then ''high'' else ''medium'')\<rparr>)
                    (filter (\<lambda>(k, v). duration v > real_of_int stability_threshold) sv'),
                  filter (\<lambda>(k, v). duration v > real_of_int stability_threshold
                                     \<or> \<not> duration v < real_of_int stability_threshold - 5) sv'))"


subsection \<open>Video sources (backend/video_processor/video_handler.py)\<close>

text \<open>
  A \<open>cv2.VideoCapture\<close>: the frames it has still to deliver and \<open>isOpened()\<close>.
  The world outside decides what a capture holds: \<open>video_capture w x\<close> is \<open>None\<close> when
  a capture created on \<open>x\<close> does not open, else the frames it will deliver (a finite
  recording). \<open>path_exists\<close> is \<open>os.path.exists\<close>; \<open>extract_info\<close> is the stream
  URL yt-dlp resolves, \<open>None\<close> when it raises; \<open>utcnow\<close> is the clock reading when
  the frame of that number is handled.
\<close>

record 'f capture =
  frames :: "'f list"
  is_opened :: bool

record 'f world =
  path_exists :: "string \<Rightarrow> bool"
  video_capture :: "string \<Rightarrow> 'f list option"
  extract_info :: "string \<Rightarrow> string option"
  utcnow :: "nat \<Rightarrow> real"

definition new_capture :: "'f world \<Rightarrow> string \<Rightarrow> 'f capture" where
  "new_capture w x =
     (case video_capture w x of
        None \<Rightarrow> \<lparr>frames = [], is_opened = False\<rparr>
      | Some fs \<Rightarrow> \<lparr>frames = fs, is_opened = True\<rparr>)"

text \<open>
  The handler classes the feeds below use, with the field \<open>cap\<close> of the base class
  (\<open>frame_rate\<close> is written and never read; it is left out).
\<close>

datatype handler_kind =
    UploadedVideoHandler string
  | YouTubeVideoHandler string

record 'f video_handler =
  kind :: handler_kind
  cap :: "'f capture option"

definition new_handler :: "handler_kind \<Rightarrow> 'f video_handler" where
  "new_handler k = \<lparr>kind = k, cap = None\<rparr>"

text \<open>
  \<open>get_video_stream\<close> of the two classes: the handler afterwards, and the exception
  raised, if any. \<open>self.cap\<close> is assigned before \<open>isOpened()\<close> is tested.
\<close>

definition get_video_stream ::
  "'f world \<Rightarrow> 'f video_handler \<Rightarrow> 'f video_handler \<times> py_error option" where
  "get_video_stream w h =
     (case kind h of
        UploadedVideoHandler file_path \<Rightarrow>
          if \<not> path_exists w file_path then (h, Some FileNotFoundError)
          else
            let c = new_capture w file_path
            in (h\<lparr>cap := Some c\<rparr>, if \<not> is_opened c then Some OpenError else None)
      | YouTubeVideoHandler youtube_url \<Rightarrow>
          (case extract_info w youtube_url of
             None \<Rightarrow> (h, Some ResolveError)
           | Some video_stream_url \<Rightarrow>
               let c = new_capture w video_stream_url
               in (h\<lparr>cap := Some c\<rparr>, if \<not> is_opened c then Some OpenError else None)))"

text \<open>\<open>VideoHandler.release\<close>: \<open>if self.cap: self.cap.release()\<close>.\<close>

definition release :: "'f video_handler \<Rightarrow> 'f video_handler" where
  "release h =
     (case cap h of None \<Rightarrow> h | Some c \<Rightarrow> h\<lparr>cap := Some (c\<lparr>is_opened := False\<rparr>)\<rparr>)"

text \<open>\<open>cap.read()\<close>: the frame and the handler afterwards, \<open>None\<close> when \<open>ret\<close> is false.\<close>

definition read_frame :: "'f video_handler \<Rightarrow> ('f \<times> 'f video_handler) option" where
  "read_frame h =
     (case cap h of
        None \<Rightarrow> None
      | Some c \<Rightarrow>
          (case frames c of
             [] \<Rightarrow> None
           | f # fs \<Rightarrow> if is_opened c then Some (f, h\<lparr>cap := Some (c\<lparr>frames := fs\<rparr>)\<rparr>) else None))"

text \<open>Whether the handler holds an open source handle.\<close>

definition handle_open :: "'f video_handler \<Rightarrow> bool" where
  "handle_open h = (case cap h of None \<Rightarrow> False | Some c \<Rightarrow> is_opened c)"

subsection \<open>Processors and the analysis service\<close>

record 'f video_processor =
  video_handler :: "'f video_handler"
  vp_junction_id :: string
  frame_count :: nat
  is_processing :: bool
  stop_event :: bool

definition new_processor :: "'f video_handler \<Rightarrow> string \<Rightarrow> 'f video_processor" where
  "new_processor h j =
     \<lparr>video_handler = h, vp_junction_id = j, frame_count = 0,
      is_processing = False, stop_event = False\<rparr>"

text \<open>\<open>VideoProcessor.stop_processing\<close>.\<close>

definition stop_processing :: "'f video_processor \<Rightarrow> 'f video_processor" where
  "stop_processing p = p\<lparr>is_processing := False, stop_event := True\<rparr>"

text \<open>The \<open>finally\<close> block of \<open>process_video_stream\<close>.\<close>

definition finally_release :: "'f video_processor \<Rightarrow> 'f video_processor" where
  "finally_release p = p\<lparr>video_handler := release (video_handler p), is_processing := False\<rparr>"

text \<open>A value of \<open>analysis_results\<close>, and a row of \<open>traffic_analysis_results\<close>.\<close>

record analysis_result =
  ar_frame_count :: nat
  ar_vehicle_count :: int
  ar_vehicle_types :: "(string \<times> int) list"
  ar_timestamp :: real
  ar_detections :: "detection list"

record saved_result =
  sr_junction_id :: string
  sr_feed_id :: string
  sr_vehicle_count :: int
  sr_vehicle_types :: "(string \<times> int) list"

datatype log_entry =
    StreamEnded
  | ErrorProcessingFrame string py_error
  | ErrorSavingResult

text \<open>
  Where a worker thread stands: started and not yet in \<open>process_video_stream\<close>; at the
  test of the \<open>while\<close> loop; returned; or ended by an exception that left the thread.
\<close>

datatype phase = Created | Streaming | Exited | Died py_error

record worker =
  w_feed_id :: string
  phase :: phase

text \<open>
  \<open>VideoAnalysisService\<close>. A processor is an object shared by the registry and its
  worker thread, so the processors live in a store of objects by reference, and
  \<open>active_processors\<close> holds references. \<open>workers\<close> has the thread started for each
  processor; \<open>saved\<close> and \<open>db_raises\<close> are the database connection; \<open>log\<close> is what
  the module's logger received.
\<close>

record 'f video_analysis_service =
  objects :: "nat \<rightharpoonup> 'f video_processor"
  next_ref :: nat
  active_processors :: "string \<rightharpoonup> nat"
  analysis_results :: "string \<rightharpoonup> analysis_result"
  workers :: "nat \<rightharpoonup> worker"
  saved :: "saved_result list"
  db_raises :: bool
  log :: "log_entry list"

definition new_service :: "'f video_analysis_service" where
  "new_service =
     \<lparr>objects = Map.empty, next_ref = 0, active_processors = Map.empty,
      analysis_results = Map.empty, workers = Map.empty, saved = [], db_raises = False,
      log = []\<rparr>"

text \<open>\<open>f"{junction_id}_{feed_name}_{int(datetime.now().timestamp())}"\<close>.\<close>

definition make_feed_id :: "string \<Rightarrow> string \<Rightarrow> int \<Rightarrow> string" where
  "make_feed_id j feed_name now = j @ ''_'' @ feed_name @ ''_'' @ py_str now"

text \<open>
  What the three \<open>add\<close> methods share after building the handler: the processor, the
  feed id, the registry entry and the started thread. The source is not opened here.
\<close>

definition start_feed ::
  "'f video_analysis_service \<Rightarrow> int \<Rightarrow> string \<Rightarrow> string \<Rightarrow> 'f video_handler
     \<Rightarrow> string \<times> 'f video_analysis_service" where
  "start_feed self now j feed_name handler =
     (let r = next_ref self;
          processor = new_processor handler j;
          feed_id = make_feed_id j feed_name now
      in (feed_id,
          self\<lparr>objects := (objects self)(r \<mapsto> processor),
               next_ref := r + 1,
               active_processors := (active_processors self)(feed_id \<mapsto> r),
               workers := (workers self)(r \<mapsto> \<lparr>w_feed_id = feed_id, phase = Created\<rparr>)\<rparr>))"

text \<open>
  \<open>upload_and_process_video\<close> and \<open>add_youtube_feed\<close>, called when the clock reads
  \<open>now\<close>. The \<open>except\<close> clause raises again, but nothing in the \<open>try\<close> block opens
  the source, so nothing there raises.
\<close>

definition upload_and_process_video ::
  "'f video_analysis_service \<Rightarrow> int \<Rightarrow> string \<Rightarrow> string \<Rightarrow> string
     \<Rightarrow> py_error + (string \<times> 'f video_analysis_service)" where
  "upload_and_process_video self now j file_path feed_name =
     Inr (start_feed self now j feed_name (new_handler (UploadedVideoHandler file_path)))"

definition add_youtube_feed ::
  "'f video_analysis_service \<Rightarrow> int \<Rightarrow> string \<Rightarrow> string \<Rightarrow> string
     \<Rightarrow> py_error + (string \<times> 'f video_analysis_service)" where
  "add_youtube_feed self now j youtube_url feed_name =
     Inr (start_feed self now j feed_name (new_handler (YouTubeVideoHandler youtube_url)))"

text \<open>\<open>get_feed_results\<close>: \<open>analysis_results.get(feed_id, {})\<close>; \<open>None\<close> is \<open>{}\<close>.\<close>

definition get_feed_results ::
  "'f video_analysis_service \<Rightarrow> string \<Rightarrow> analysis_result option" where
  "get_feed_results self feed_id = analysis_results self feed_id"

text \<open>\<open>stop_feed\<close>: it returns after setting the flags and deleting the entry.\<close>

definition stop_feed :: "'f video_analysis_service \<Rightarrow> string \<Rightarrow> 'f video_analysis_service" where
  "stop_feed self feed_id =
     (case active_processors self feed_id of
        None \<Rightarrow> self
      | Some r \<Rightarrow>
          self\<lparr>objects := (case objects self r of
                             None \<Rightarrow> objects self
                           | Some p \<Rightarrow> (objects self)(r \<mapsto> stop_processing p)),
               active_processors := (active_processors self)(feed_id := None)\<rparr>)"

text \<open>\<open>_save_analysis_result\<close>: an exception of the database is logged.\<close>

definition save_analysis_result ::
  "'f video_analysis_service \<Rightarrow> string \<Rightarrow> string \<Rightarrow> detections \<Rightarrow> 'f video_analysis_service" where
  "save_analysis_result self feed_id j dets =
     (if db_raises self then self\<lparr>log := log self @ [ErrorSavingResult]\<rparr>
      else self\<lparr>saved := saved self @
                  [\<lparr>sr_junction_id = j, sr_feed_id = feed_id,
                    sr_vehicle_count = vehicle_count dets,
                    sr_vehicle_types = vehicle_types dets\<rparr>]\<rparr>)"

text \<open>
  The body of the \<open>for\<close> loop of \<open>_process_feed\<close>, for one frame the generator
  yielded with the count \<open>n\<close>.
\<close>

definition process_yielded ::
  "'f world \<Rightarrow> 'f yolo \<Rightarrow> string \<Rightarrow> string \<Rightarrow> 'f \<Rightarrow> nat \<Rightarrow> 'f video_analysis_service
     \<Rightarrow> 'f video_analysis_service" where
  "process_yielded w model feed_id j frame n self =
     (case process_frame model frame of
        Inl e \<Rightarrow> self\<lparr>log := log self @ [ErrorProcessingFrame feed_id e]\<rparr>
      | Inr dets \<Rightarrow>
          if n mod 30 = 0 then
            save_analysis_result
              (self\<lparr>analysis_results := (analysis_results self)(feed_id \<mapsto>
                      \<lparr>ar_frame_count = n, ar_vehicle_count = vehicle_count dets,
                       ar_vehicle_types = vehicle_types dets, ar_timestamp = utcnow w n,
                       ar_detections = detections dets\<rparr>)\<rparr>)
              feed_id j dets
          else self)"

text \<open>
  One step of the worker thread of the processor \<open>r\<close>, that is of \<open>_process_feed\<close>
  driving the generator \<open>process_video_stream\<close>: from \<open>Created\<close> the source is opened;
  from \<open>Streaming\<close> one pass of the \<open>while\<close> loop runs, from its test to the next
  test, with the loop body of \<open>_process_feed\<close> at a \<open>yield\<close>. Every way out of the
  generator passes through its \<open>finally\<close> block. Other threads run between steps.
\<close>

definition worker_step ::
  "'f world \<Rightarrow> 'f yolo \<Rightarrow> nat \<Rightarrow> 'f video_analysis_service \<Rightarrow> 'f video_analysis_service" where
  "worker_step w model r self =
     (case (objects self r, workers self r) of
        (Some p, Some t) \<Rightarrow>
          (case phase t of
             Created \<Rightarrow>
               (case get_video_stream w (video_handler p) of
                  (h, Some e) \<Rightarrow>
                    self\<lparr>objects := (objects self)(r \<mapsto> finally_release (p\<lparr>video_handler := h\<rparr>)),
                         workers := (workers self)(r \<mapsto> t\<lparr>phase := Died e\<rparr>)\<rparr>
                | (h, None) \<Rightarrow>
                    self\<lparr>objects := (objects self)(r \<mapsto> p\<lparr>video_handler := h, is_processing := True\<rparr>),
                         workers := (workers self)(r \<mapsto> t\<lparr>phase := Streaming\<rparr>)\<rparr>)
           | Streaming \<Rightarrow>
               if is_processing p \<and> \<not> stop_event p then
                 (case read_frame (video_handler p) of
                    None \<Rightarrow>
                      self\<lparr>objects := (objects self)(r \<mapsto> finally_release p),
                           workers := (workers self)(r \<mapsto> t\<lparr>phase := Exited\<rparr>),
                           log := log self @ [StreamEnded]\<rparr>
                  | Some (frame, h) \<Rightarrow>
                      let n = frame_count p + 1;
                          self' = self\<lparr>objects := (objects self)(r \<mapsto>
                                          p\<lparr>video_handler := h, frame_count := n\<rparr>)\<rparr>
                      in if n mod 30 = 0
                         then process_yielded w model (w_feed_id t) (vp_junction_id p) frame n self'
                         else self')
               else
                 self\<lparr>objects := (objects self)(r \<mapsto> finally_release p),
                      workers := (workers self)(r \<mapsto> t\<lparr>phase := Exited\<rparr>)\<rparr>
           | Exited \<Rightarrow> self
           | Died e \<Rightarrow> self)
      | _ \<Rightarrow> self)"

text \<open>Worlds and models for the concrete runs below; frames are numbered by \<open>nat\<close>.\<close>

definition no_file_world :: "nat world" where
  "no_file_world =
     \<lparr>path_exists = (\<lambda>_. False), video_capture = (\<lambda>_. None), extract_info = (\<lambda>_. None),
      utcnow = (\<lambda>_. 0)\<rparr>"

definition recording_world :: "nat \<Rightarrow> nat world" where
  "recording_world n =
     \<lparr>path_exists = (\<lambda>_. True), video_capture = (\<lambda>_. Some (replicate n 1)),
      extract_info = (\<lambda>_. None), utcnow = (\<lambda>_. 0)\<rparr>"

definition failing_model :: "nat yolo" where
  "failing_model frame = Inl DetectorError"

text \<open>\<open>n\<close> steps of the worker of \<open>r\<close> with no other thread in between.\<close>

definition worker_steps ::
  "'f world \<Rightarrow> 'f yolo \<Rightarrow> nat \<Rightarrow> nat \<Rightarrow> 'f video_analysis_service
     \<Rightarrow> 'f video_analysis_service" where
  "worker_steps w model r n self = (worker_step w model r ^^ n) self"

section \<open>Properties\<close>

subsection \<open>Scorer\<close>

lemma analyze_congestion_density:
  assumes "fst shape * snd shape \<noteq> 0"
    and "d = density_of (vehicle_count dets) (fst shape * snd shape)"
  shows "analyze_congestion dets shape =
           Inr \<lparr>congestion_score =
                   (if d < 2 then d * 10
                    else if d < 5 then 20 + (d - 2) * 10
                    else if d < 10 then 50 + (d - 5) * 10
                    else 100),
                 congestion_level =
                   (if d < 2 then ''low''
                    else if d < 5 then ''medium''
                    else if d < 10 then ''high''
                    else ''critical''),
                 vehicle_density = d, c_vehicle_count = vehicle_count dets\<rparr>"
proof -
  have "analyze_congestion dets shape =
          (let (level, score) =
                 (if d < 2 then (''low'', d * 10)
                  else if d < 5 then (''medium'', 20 + (d - 2) * 10)
                  else if d < 10 then (''high'', 50 + (d - 5) * 10)
                  else (''critical'', 100))
           in Inr \<lparr>congestion_score = min score 100, congestion_level = level,
                    vehicle_density = d, c_vehicle_count = vehicle_count dets\<rparr>)"
    using assms(1) unfolding assms(2) analyze_congestion_def density_of_def Let_def
    by (simp only: if_False)
  then show ?thesis
    by (simp add: min_def)
qed

lemma density_of_nonneg:
  assumes "0 \<le> count" and "0 < area"
  shows "0 \<le> density_of count area"
  unfolding density_of_def using assms
  by (intro mult_nonneg_nonneg divide_nonneg_pos) simp_all

text \<open>
  C3. For a non-negative vehicle count and a frame of positive area the scorer returns,
  with density = (count / area) * 100000: level low and score density * 10 below 2;
  medium and 20 + (density - 2) * 10 in [2, 5); high and 50 + (density - 5) * 10 in
  [5, 10); critical and 100 from 10 on. The score lies in [0, 100]. Density 1 gives
  10 (low), 3 gives 30 (medium), 7 gives 70 (high), 12 gives 100 (critical).
\<close>

theorem scorer_piecewise:
  assumes "0 \<le> vehicle_count dets" and "0 < h * w"
  shows "\<exists>r. analyze_congestion dets (h, w) = Inr r
           \<and> vehicle_density r = density_of (vehicle_count dets) (h * w)
           \<and> (vehicle_density r < 2 \<longrightarrow>
                congestion_level r = ''low'' \<and> congestion_score r = vehicle_density r * 10)
           \<and> (2 \<le> vehicle_density r \<and> vehicle_density r < 5 \<longrightarrow>
                congestion_level r = ''medium''
                \<and> congestion_score r = 20 + (vehicle_density r - 2) * 10)
           \<and> (5 \<le> vehicle_density r \<and> vehicle_density r < 10 \<longrightarrow>
                congestion_level r = ''high''
                \<and> congestion_score r = 50 + (vehicle_density r - 5) * 10)
           \<and> (10 \<le> vehicle_density r \<longrightarrow>
                congestion_level r = ''critical'' \<and> congestion_score r = 100)
           \<and> 0 \<le> congestion_score r \<and> congestion_score r \<le> 100
           \<and> (vehicle_density r = 1 \<longrightarrow> congestion_score r = 10 \<and> congestion_level r = ''low'')
           \<and> (vehicle_density r = 3 \<longrightarrow> congestion_score r = 30 \<and> congestion_level r = ''medium'')
           \<and> (vehicle_density r = 7 \<longrightarrow> congestion_score r = 70 \<and> congestion_level r = ''high'')
           \<and> (vehicle_density r = 12 \<longrightarrow>
                congestion_score r = 100 \<and> congestion_level r = ''critical'')"
proof -
  define d where "d = density_of (vehicle_count dets) (fst (h, w) * snd (h, w))"
  have area: "fst (h, w) * snd (h, w) \<noteq> 0" using assms(2) by auto
  have nonneg: "0 \<le> d"
    unfolding d_def using assms by (simp add: density_of_nonneg)
  have d_eq: "density_of (vehicle_count dets) (h * w) = d"
    by (simp add: d_def)
  show ?thesis
    unfolding analyze_congestion_density [OF area d_def] d_eq
    using nonneg by simp
qed

theorem scorer_piecewise_witness:
  "analyze_congestion (detect_fallback\<lparr>vehicle_count := 1\<rparr>) (250, 400)
     = Inr \<lparr>congestion_score = 10, congestion_level = ''low'',
            vehicle_density = 1, c_vehicle_count = 1\<rparr>
   \<and> (\<exists>r. analyze_congestion (detect_fallback\<lparr>vehicle_count := 3\<rparr>) (250, 400) = Inr r
          \<and> congestion_score r = 30 \<and> congestion_level r = ''medium'')
   \<and> (\<exists>r. analyze_congestion (detect_fallback\<lparr>vehicle_count := 7\<rparr>) (250, 400) = Inr r
          \<and> congestion_score r = 70 \<and> congestion_level r = ''high'')
   \<and> (\<exists>r. analyze_congestion (detect_fallback\<lparr>vehicle_count := 12\<rparr>) (250, 400) = Inr r
          \<and> congestion_score r = 100 \<and> congestion_level r = ''critical'')"
  using scorer_piecewise [of "detect_fallback\<lparr>vehicle_count := 1\<rparr>" 250 400]
        scorer_piecewise [of "detect_fallback\<lparr>vehicle_count := 3\<rparr>" 250 400]
        scorer_piecewise [of "detect_fallback\<lparr>vehicle_count := 7\<rparr>" 250 400]
        scorer_piecewise [of "detect_fallback\<lparr>vehicle_count := 12\<rparr>" 250 400]
  by (simp add: density_of_def analyze_congestion_def Let_def)

text \<open>
  C4. The congestion score is monotonic non-decreasing in density: of two results of the
  scorer (whatever the counts and frame shapes, so in particular for equal frame areas),
  the one with the smaller or equal density has the smaller or equal score. The bands
  meet at 2, 5 and 10, so this holds across the band boundaries.
\<close>

theorem scorer_monotone:
  assumes "analyze_congestion d1 s1 = Inr r1"
    and "analyze_congestion d2 s2 = Inr r2"
    and "vehicle_density r1 \<le> vehicle_density r2"
  shows "congestion_score r1 \<le> congestion_score r2"
proof -
  have a1: "fst s1 * snd s1 \<noteq> 0"
    using assms(1) by (auto simp: analyze_congestion_def Let_def split: if_splits)
  have a2: "fst s2 * snd s2 \<noteq> 0"
    using assms(2) by (auto simp: analyze_congestion_def Let_def split: if_splits)
  show ?thesis
    using assms
    unfolding analyze_congestion_density [OF a1 refl] analyze_congestion_density [OF a2 refl]
    by (auto split: if_splits)
qed

theorem scorer_monotone_witness:
  "(\<exists>r1 r2. analyze_congestion (detect_fallback\<lparr>vehicle_count := 4\<rparr>) (250, 400) = Inr r1
      \<and> analyze_congestion (detect_fallback\<lparr>vehicle_count := 5\<rparr>) (250, 400) = Inr r2
      \<and> vehicle_density r1 = 4 \<and> vehicle_density r2 = 5
      \<and> congestion_score r1 \<le> congestion_score r2)"
proof -
  let ?d1 = "detect_fallback\<lparr>vehicle_count := 4\<rparr>"
  let ?d2 = "detect_fallback\<lparr>vehicle_count := 5\<rparr>"
  let ?r1 = "\<lparr>congestion_score = 40, congestion_level = ''medium'',
              vehicle_density = 4, c_vehicle_count = 4\<rparr>"
  let ?r2 = "\<lparr>congestion_score = 50, congestion_level = ''high'',
              vehicle_density = 5, c_vehicle_count = 5\<rparr>"
  have e1: "analyze_congestion ?d1 (250, 400) = Inr ?r1"
    by (simp add: analyze_congestion_def Let_def)
  have e2: "analyze_congestion ?d2 (250, 400) = Inr ?r2"
    by (simp add: analyze_congestion_def Let_def)
  have "congestion_score ?r1 \<le> congestion_score ?r2"
    by (rule scorer_monotone [OF e1 e2]) simp
  with e1 e2 show ?thesis by simp
qed

subsection \<open>Detector\<close>

lemma sum_dict_incr: "sum_list (map snd (dict_incr kvs k)) = sum_list (map snd kvs) + 1"
  by (induction kvs k rule: dict_incr.induct) simp_all

lemma consistent_detect_box: "consistent d \<Longrightarrow> consistent (detect_box d b)"
  by (simp add: consistent_def detect_box_def sum_dict_incr)

lemma consistent_process_box: "consistent d \<Longrightarrow> consistent (process_box d b)"
  by (simp add: consistent_def process_box_def sum_dict_incr split: option.splits)

lemma consistent_foldl:
  assumes "\<And>d b. consistent d \<Longrightarrow> consistent (f d b)"
  shows "consistent d \<Longrightarrow> consistent (foldl f d bs)"
  using assms by (induction bs arbitrary: d) simp_all

lemma consistent_detect_results: "consistent d \<Longrightarrow> consistent (detect_results d results)"
  unfolding detect_results_def
  by (intro consistent_foldl consistent_detect_box)

lemma consistent_with_avg: "consistent d \<Longrightarrow> consistent (with_avg_confidence d)"
  by (simp add: consistent_def with_avg_confidence_def split: option.splits list.splits)

lemma consistent_process_results:
  "consistent d \<Longrightarrow> consistent (foldl (\<lambda>d result. foldl process_box d result) d results)"
  by (intro consistent_foldl consistent_process_box)

text \<open>
  C10. For every frame and every behaviour of the model, \<open>detect_vehicles\<close> returns a
  dictionary (it never raises) whose vehicle count is the length of its detections list
  and the sum of its histogram; when the model raises, the dictionary has count 0, no
  detections, an empty histogram and average confidence 0. Whenever
  \<open>OpenCVAnalyzer.process_frame\<close> returns, its dictionary is consistent in the same way.
\<close>

theorem detections_consistent:
  "(\<exists>d. detect_vehicles model frame = Inr d \<and> consistent d
        \<and> ((\<exists>e. model frame = Inl e) \<longrightarrow>
              vehicle_count d = 0 \<and> detections d = [] \<and> vehicle_types d = []
              \<and> avg_confidence d = Some 0))
   \<and> (\<forall>d'. process_frame model frame = Inr d' \<longrightarrow> consistent d')"
proof (cases "model frame")
  case (Inl e)
  then show ?thesis
    by (simp add: detect_vehicles_def detect_vehicles_try_def process_frame_def
        detect_fallback_def consistent_def)
next
  case (Inr results)
  have "consistent detect_init" by (simp add: consistent_def detect_init_def)
  then have a: "consistent (with_avg_confidence (detect_results detect_init results))"
    by (intro consistent_with_avg consistent_detect_results)
  have "consistent process_init" by (simp add: consistent_def process_init_def)
  then have b: "consistent (foldl (\<lambda>d result. foldl process_box d result) process_init results)"
    by (rule consistent_process_results)
  from Inr a b show ?thesis
    by (simp add: detect_vehicles_def detect_vehicles_try_def process_frame_def)
qed

theorem detections_consistent_witness:
  "detect_vehicles sample_model 0 = Inr detect_fallback
   \<and> consistent detect_fallback
   \<and> (\<exists>d. detect_vehicles sample_model 1 = Inr d \<and> consistent d \<and> vehicle_count d = 3
          \<and> vehicle_types d = [(''car'', 2), (''truck'', 1)])
   \<and> (\<exists>d'. process_frame sample_model 1 = Inr d' \<and> consistent d' \<and> vehicle_count d' = 3)"
  using detections_consistent [of sample_model 0] detections_consistent [of sample_model 1]
  by (simp add: detect_vehicles_def detect_vehicles_try_def process_frame_def sample_model_def
      detect_results_def detect_box_def process_box_def detect_init_def process_init_def
      with_avg_confidence_def vehicle_classes_def get_vehicle_type_def cv_vehicle_classes_def
      detect_fallback_def bbox_of_def)

subsection \<open>Stability tracker\<close>






subsection \<open>The tracker of \<open>VehicleDetector\<close>\<close>





lemma vd_track_fresh:
  "vd_track now frame_id sv ds = Inr sv' \<Longrightarrow> \<forall>(k, v) \<in> set sv. first_seen v = now \<Longrightarrow>
     \<forall>(k, v) \<in> set sv'. first_seen v = now"
proof (induction ds arbitrary: sv)
  case Nil
  then show ?case by simp
next
  case (Cons d ds)
  from Cons.prems(1) obtain kd where kd: "vd_vehicle_key frame_id d = Inr kd"
    by (cases "vd_vehicle_key frame_id d") simp_all
  let ?sv1 = "case map_of sv kd of
                None \<Rightarrow> sv @ [(kd, \<lparr>vd_count = 1, first_seen = now, vd_bbox = bbox d\<rparr>)]
              | Some v \<Rightarrow>
                  map (\<lambda>(k', v'). if k' = kd then (k', v'\<lparr>vd_count := vd_count v' + 1\<rparr>)
                                   else (k', v')) sv"
  have run: "vd_track now frame_id ?sv1 ds = Inr sv'"
    using Cons.prems(1) kd by simp
  have "\<forall>(k, v) \<in> set ?sv1. first_seen v = now"
    using Cons.prems(2) by (auto split: option.splits if_splits)
  from Cons.IH [OF run this] show ?case .
qed

text \<open>
  With a threshold above five minutes (the default is ten), an entry created in a call
  has duration 0 there, and the second loop of the same call deletes it: from the empty
  dictionary every call reports nothing and leaves the dictionary empty.
\<close>

lemma vd_never_stable_from_empty:
  assumes "5 < stability_threshold"
    and "vd_detect_stable_vehicles [] now dets frame_id stability_threshold = Inr (alerts', sv')"
  shows "alerts' = [] \<and> sv' = []"
proof -
  from assms(2) obtain sv1 where tr: "vd_track now frame_id [] (detections dets) = Inr sv1"
    by (cases "vd_track now frame_id [] (detections dets)")
       (simp_all add: vd_detect_stable_vehicles_def)
  have fresh: "\<forall>(k, v) \<in> set sv1. first_seen v = now"
    by (rule vd_track_fresh [OF tr]) simp
  have a: "filter (\<lambda>(k, v). (now - first_seen v) / 60 > real_of_int stability_threshold) sv1 = []"
    using fresh assms(1) by (auto simp: filter_empty_conv)
  have b: "filter (\<lambda>(k, v). (now - first_seen v) / 60 > real_of_int stability_threshold
                            \<or> \<not> (now - first_seen v) / 60 < real_of_int stability_threshold - 5)
             sv1 = []"
    using fresh assms(1) by (auto simp: filter_empty_conv)
  show ?thesis
    using assms(2) unfolding vd_detect_stable_vehicles_def tr Let_def sum.case a b
    by simp
qed




subsection \<open>Alert generator\<close>

lemma stable_vehicle_deduplicated:
  assumes "a \<in> set (congestion_alerts (supabase self))"
    and "junction_id a = j" and "alert_status a = ''active''"
    and "alert_type a = ''stable_vehicle''"
    and "stable_threshold_minutes \<le> stable_duration_minutes a"
  shows "\<forall>r \<in> set (fst (check_and_create_alerts self t j dets feed)).
           alert_type r \<noteq> ''stable_vehicle''"
proof -
  have "list_ex (\<lambda>a. stable_threshold_minutes \<le> stable_duration_minutes a)
          (filter (\<lambda>a. junction_id a = j \<and> alert_status a = ''active''
                        \<and> alert_type a = ''stable_vehicle'')
             (congestion_alerts (supabase self)))"
    using assms by (auto simp: list_ex_iff)
  then show ?thesis
    by (auto simp: check_and_create_alerts_def select_alerts_def try_insert_def
        insert_alert_def Let_def split: if_splits sum.splits)
qed

text \<open>
  C1 (the code at the sample of the claim). From an empty store, the counts 35, 40 and 32
  at three consecutive samples of junction 1 create one \<open>high_congestion\<close> alert each:
  afterwards three active \<open>high_congestion\<close> alerts of that junction are stored.
\<close>

theorem high_congestion_not_deduplicated:
  "map length (fst (check_samples fresh_analyzer 1 [(0, 35), (60, 40), (120, 32)])) = [1, 1, 1]
   \<and> length (active_alerts
        (snd (check_samples fresh_analyzer 1 [(0, 35), (60, 40), (120, 32)]))
        1 ''high_congestion'') = 3"
  by (simp add: check_and_create_alerts_def select_alerts_def try_insert_def insert_alert_def
      fresh_analyzer_def active_alerts_def stable_threshold_minutes_def Let_def)


subsection \<open>Bottleneck alert\<close>

lemma detect_bottleneck_alerts:
  "alerts (detect_bottleneck_and_alert db j vehicles stable_vehicles) =
     (if (vehicles > 100 \<or> stable_vehicles > 5) \<and> \<not> execute_raises db
      then alerts db @ [bottleneck_alert j vehicles stable_vehicles]
      else alerts db)"
  by (simp add: detect_bottleneck_and_alert_def create_alert_def bottleneck_alert_def Let_def)

text \<open>
  C5 as stated fails: with 101 vehicles and no stable vehicle the conjunction
  "count > 100 and stable count > 5" does not hold, and a bottleneck alert is created.
\<close>

theorem bottleneck_conjunction_counterexample:
  "\<not> ((101::int) > 100 \<and> (0::int) > 5)
   \<and> map sa_alert_type (alerts (detect_bottleneck_and_alert empty_db ''7'' 101 0))
       = [''bottleneck'']"
  by (simp add: detect_bottleneck_alerts empty_db_def bottleneck_alert_def)

text \<open>
  C5, amended. While the database accepts the insert, a bottleneck alert is created exactly
  when the vehicle count exceeds 100 or the stable-vehicle count exceeds 5: then one row of
  type bottleneck (severity critical above 10 stable vehicles, else high) is appended to
  the alerts, and otherwise the alerts are unchanged.
\<close>

theorem bottleneck_alert_iff_disjunction:
  assumes "\<not> execute_raises db"
  shows "(vehicles > 100 \<or> stable_vehicles > 5 \<longrightarrow>
            (\<exists>a. alerts (detect_bottleneck_and_alert db j vehicles stable_vehicles) = alerts db @ [a]
                  \<and> sa_alert_type a = ''bottleneck'' \<and> sa_junction_id a = j
                  \<and> severity a = (if stable_vehicles > 10 then ''critical'' else ''high'')))
         \<and> (\<not> (vehicles > 100 \<or> stable_vehicles > 5) \<longrightarrow>
              alerts (detect_bottleneck_and_alert db j vehicles stable_vehicles) = alerts db)"
  using assms by (simp add: detect_bottleneck_alerts bottleneck_alert_def)

theorem bottleneck_alert_iff_disjunction_witness:
  "\<not> execute_raises empty_db
   \<and> length (alerts (detect_bottleneck_and_alert empty_db ''7'' 50 6)) = 1
   \<and> length (alerts (detect_bottleneck_and_alert empty_db ''7'' 101 0)) = 1
   \<and> length (alerts (detect_bottleneck_and_alert empty_db ''7'' 100 5)) = 0"
  using bottleneck_alert_iff_disjunction [of empty_db 50 6 "''7''"]
        bottleneck_alert_iff_disjunction [of empty_db 101 0 "''7''"]
        bottleneck_alert_iff_disjunction [of empty_db 100 5 "''7''"]
  by (auto simp: empty_db_def)

subsection \<open>Feed creation\<close>

lemma start_feed_registers:
  "start_feed self now j feed_name h = (feed_id, s') \<Longrightarrow>
     feed_id = make_feed_id j feed_name now
     \<and> active_processors s' feed_id = Some (next_ref self)
     \<and> objects s' (next_ref self) = Some (new_processor h j)
     \<and> workers s' (next_ref self) = Some \<lparr>w_feed_id = feed_id, phase = Created\<rparr>
     \<and> analysis_results s' = analysis_results self"
  by (auto simp: start_feed_def Let_def)

lemma worker_open_fails:
  assumes "objects s r = Some (new_processor h j)"
    and "workers s r = Some \<lparr>w_feed_id = feed_id, phase = Created\<rparr>"
    and "snd (get_video_stream w h) = Some e"
  shows "active_processors (worker_step w model r s) = active_processors s
         \<and> analysis_results (worker_step w model r s) = analysis_results s
         \<and> workers (worker_step w model r s) r = Some \<lparr>w_feed_id = feed_id, phase = Died e\<rparr>"
  using assms
  by (cases "get_video_stream w h") (simp add: worker_step_def new_processor_def)

lemma feed_created:
  assumes "h = new_handler k"
  shows "\<exists>s'. start_feed self now j feed_name h = (make_feed_id j feed_name now, s')
           \<and> active_processors s' (make_feed_id j feed_name now) = Some (next_ref self)
           \<and> workers s' (next_ref self)
               = Some \<lparr>w_feed_id = make_feed_id j feed_name now, phase = Created\<rparr>
           \<and> (\<forall>w model e. snd (get_video_stream w h) = Some e \<longrightarrow>
                 (let s'' = worker_step w model (next_ref self) s'
                  in active_processors s'' (make_feed_id j feed_name now) = Some (next_ref self)
                     \<and> workers s'' (next_ref self)
                         = Some \<lparr>w_feed_id = make_feed_id j feed_name now, phase = Died e\<rparr>))"
proof -
  obtain fid s' where sf: "start_feed self now j feed_name h = (fid, s')"
    by (cases "start_feed self now j feed_name h")
  note reg = start_feed_registers [OF sf]
  have "\<forall>w model e. snd (get_video_stream w h) = Some e \<longrightarrow>
          (let s'' = worker_step w model (next_ref self) s'
           in active_processors s'' fid = Some (next_ref self)
              \<and> workers s'' (next_ref self) = Some \<lparr>w_feed_id = fid, phase = Died e\<rparr>)"
    using reg worker_open_fails [of s' "next_ref self" h j fid]
    by (auto simp: Let_def)
  with sf reg show ?thesis by auto
qed

text \<open>
  C6 as stated fails: the file of the upload does not exist, so the initial open raises;
  the call has returned the feed id all the same, with the processor registered under it,
  and the entry is still there after the worker has met the error.
\<close>

theorem unopenable_source_counterexample:
  "snd (get_video_stream no_file_world (new_handler (UploadedVideoHandler ''/videos/7/a.mp4'')))
     = Some FileNotFoundError
   \<and> (\<exists>s. upload_and_process_video (new_service :: nat video_analysis_service)
              1700000000 ''7'' ''/videos/7/a.mp4'' ''cam'' = Inr (''7_cam_1700000000'', s)
          \<and> active_processors s ''7_cam_1700000000'' = Some 0
          \<and> active_processors (worker_step no_file_world failing_model 0 s) ''7_cam_1700000000''
              = Some 0
          \<and> map_option phase (workers (worker_step no_file_world failing_model 0 s) 0)
              = Some (Died FileNotFoundError))"
  by (simp add: upload_and_process_video_def start_feed_def new_service_def make_feed_id_def
      py_str_def digit_char_def new_processor_def new_handler_def worker_step_def
      get_video_stream_def no_file_world_def finally_release_def release_def Let_def)

text \<open>
  C6, amended. Feed creation does not open the source. For every source descriptor,
  whether or not it can be opened, \<open>upload_and_process_video\<close> and
  \<open>add_youtube_feed\<close> return the feed id, with the new processor registered under it
  and its worker started. When the initial open then fails in the worker, the worker
  ends with that error and the registry keeps the entry.
\<close>

theorem feed_creation_registers_unopened:
  "(\<exists>s'. upload_and_process_video self now j file_path feed_name
            = Inr (make_feed_id j feed_name now, s')
        \<and> active_processors s' (make_feed_id j feed_name now) = Some (next_ref self)
        \<and> workers s' (next_ref self)
            = Some \<lparr>w_feed_id = make_feed_id j feed_name now, phase = Created\<rparr>
        \<and> (\<forall>w model e.
              snd (get_video_stream w (new_handler (UploadedVideoHandler file_path))) = Some e \<longrightarrow>
              (let s'' = worker_step w model (next_ref self) s'
               in active_processors s'' (make_feed_id j feed_name now) = Some (next_ref self)
                  \<and> workers s'' (next_ref self)
                      = Some \<lparr>w_feed_id = make_feed_id j feed_name now, phase = Died e\<rparr>)))
   \<and> (\<exists>s'. add_youtube_feed self now j youtube_url feed_name
            = Inr (make_feed_id j feed_name now, s')
        \<and> active_processors s' (make_feed_id j feed_name now) = Some (next_ref self)
        \<and> workers s' (next_ref self)
            = Some \<lparr>w_feed_id = make_feed_id j feed_name now, phase = Created\<rparr>
        \<and> (\<forall>w model e.
              snd (get_video_stream w (new_handler (YouTubeVideoHandler youtube_url))) = Some e \<longrightarrow>
              (let s'' = worker_step w model (next_ref self) s'
               in active_processors s'' (make_feed_id j feed_name now) = Some (next_ref self)
                  \<and> workers s'' (next_ref self)
                      = Some \<lparr>w_feed_id = make_feed_id j feed_name now, phase = Died e\<rparr>)))"
  unfolding upload_and_process_video_def add_youtube_feed_def
  using feed_created [OF refl, of self now j feed_name "UploadedVideoHandler file_path"]
        feed_created [OF refl, of self now j feed_name "YouTubeVideoHandler youtube_url"]
  by simp

theorem feed_creation_registers_unopened_witness:
  "snd (get_video_stream no_file_world (new_handler (YouTubeVideoHandler ''https://youtu.be/x'')))
     = Some ResolveError
   \<and> (\<exists>s'. add_youtube_feed (new_service :: nat video_analysis_service)
               1700000000 ''7'' ''https://youtu.be/x'' ''yt'' = Inr (''7_yt_1700000000'', s')
          \<and> active_processors (worker_step no_file_world failing_model 0 s') ''7_yt_1700000000''
              = Some 0
          \<and> workers (worker_step no_file_world failing_model 0 s') 0
              = Some \<lparr>w_feed_id = ''7_yt_1700000000'', phase = Died ResolveError\<rparr>)"
proof -
  have e: "snd (get_video_stream no_file_world
                  (new_handler (YouTubeVideoHandler ''https://youtu.be/x'') :: nat video_handler))
             = Some ResolveError"
    by (simp add: get_video_stream_def new_handler_def no_file_world_def)
  have id: "make_feed_id ''7'' ''yt'' 1700000000 = ''7_yt_1700000000''"
    by (simp add: make_feed_id_def py_str_def digit_char_def)
  have n: "next_ref (new_service :: nat video_analysis_service) = 0"
    by (simp add: new_service_def)
  show ?thesis
    using feed_creation_registers_unopened
            [of "new_service :: nat video_analysis_service" 1700000000 "''7''" "''x''" "''yt''"
                "''https://youtu.be/x''"]
          e
    unfolding id n
    by (auto simp: Let_def)
qed

subsection \<open>Stopping a feed\<close>

lemma stop_feed_effect:
  assumes "active_processors self feed_id = Some r" and "objects self r = Some p"
  shows "objects (stop_feed self feed_id) r = Some (stop_processing p)"
    and "active_processors (stop_feed self feed_id) feed_id = None"
    and "workers (stop_feed self feed_id) = workers self"
    and "analysis_results (stop_feed self feed_id) = analysis_results self"
  using assms by (simp_all add: stop_feed_def)

lemma worker_observes_stop:
  assumes "objects s r = Some p" and "workers s r = Some t" and "phase t = Streaming"
    and "\<not> is_processing p \<or> stop_event p"
  shows "objects (worker_step w model r s) r = Some (finally_release p)"
    and "workers (worker_step w model r s) r = Some (t\<lparr>phase := Exited\<rparr>)"
    and "active_processors (worker_step w model r s) = active_processors s"
  using assms by (auto simp: worker_step_def)

lemma released_closed: "\<not> handle_open (video_handler (finally_release p))"
  by (simp add: finally_release_def release_def handle_open_def split: option.splits)

text \<open>
  Every step that ends the worker, whether by the end of the stream or a failed read, by
  cancellation, or by a failed open, goes through the \<open>finally\<close> block: afterwards
  the source handle is not open and \<open>is_processing\<close> is false. (An error of the
  detector does not end the worker.)
\<close>

lemma worker_exit_releases:
  assumes "objects s r = Some p" and "workers s r = Some t"
    and "phase t = Created \<or> phase t = Streaming"
    and "workers (worker_step w model r s) r = Some t'"
    and "phase t' = Exited \<or> (\<exists>e. phase t' = Died e)"
  shows "\<exists>p'. objects (worker_step w model r s) r = Some p'
              \<and> \<not> handle_open (video_handler p') \<and> \<not> is_processing p'"
proof -
  have rel: "\<And>q. \<not> handle_open (video_handler (finally_release q))
                 \<and> \<not> is_processing (finally_release q)"
    using released_closed by (simp add: finally_release_def)
  have keep: "\<And>fid j f n x. workers (process_yielded w model fid j f n x) = workers x"
    by (simp add: process_yielded_def save_analysis_result_def split: sum.splits)
  from assms(3) show ?thesis
  proof
    assume c: "phase t = Created"
    obtain h eo where g: "get_video_stream w (video_handler p) = (h, eo)"
      by (cases "get_video_stream w (video_handler p)")
    show ?thesis
    proof (cases eo)
      case None
      with assms(1,2,4,5) c g show ?thesis by (auto simp: worker_step_def)
    next
      case (Some e)
      with assms(1,2) c g rel [of "p\<lparr>video_handler := h\<rparr>"] show ?thesis
        by (simp add: worker_step_def)
    qed
  next
    assume st: "phase t = Streaming"
    show ?thesis
    proof (cases "is_processing p \<and> \<not> stop_event p")
      case False
      with assms(1,2) st rel [of p] show ?thesis by (auto simp: worker_step_def)
    next
      case True
      show ?thesis
      proof (cases "read_frame (video_handler p)")
        case None
        with assms(1,2) st True rel [of p] show ?thesis by (simp add: worker_step_def)
      next
        case (Some fh)
        obtain f h where fh: "fh = (f, h)" by (cases fh)
        have "workers (worker_step w model r s) r = Some t"
          using assms(1,2) st True Some fh by (simp add: worker_step_def Let_def keep)
        with assms(4,5) st show ?thesis by auto
      qed
    qed
  qed
qed

text \<open>
  C7 as stated fails: a feed is created on a recording of three frames and its worker has
  opened the source; \<open>stop_feed\<close> then returns with the source handle still open and
  the worker still in its loop.
\<close>

theorem stop_feed_no_join_counterexample:
  "(\<exists>s. upload_and_process_video (new_service :: nat video_analysis_service)
           1700000000 ''7'' ''/videos/7/a.mp4'' ''cam'' = Inr (''7_cam_1700000000'', s)
       \<and> map_option is_processing
            (objects (worker_step (recording_world 3) failing_model 0 s) 0) = Some True
       \<and> map_option (handle_open \<circ> video_handler)
            (objects (stop_feed (worker_step (recording_world 3) failing_model 0 s)
                        ''7_cam_1700000000'') 0) = Some True
       \<and> map_option phase
            (workers (stop_feed (worker_step (recording_world 3) failing_model 0 s)
                        ''7_cam_1700000000'') 0) = Some Streaming)"
  by (simp add: upload_and_process_video_def start_feed_def new_service_def make_feed_id_def
      py_str_def digit_char_def new_processor_def new_handler_def worker_step_def
      get_video_stream_def recording_world_def new_capture_def stop_feed_def
      stop_processing_def handle_open_def Let_def)

text \<open>
  C7, amended. For every feed that is actively processing, \<open>stop_feed\<close> signals
  cancellation to its worker (it sets \<open>stop_event\<close> and clears \<open>is_processing\<close>) and
  removes the registry entry, and returns without waiting: the worker and the source
  handle are as they were. The worker observes the cancellation at the next test of its
  loop: its next step releases the source handle and ends the worker. And on every exit
  path of a worker (end of stream or failed read, cancellation, failed open) the step that
  ends it leaves the source handle released.
\<close>

theorem stop_feed_signals_and_unregisters:
  assumes "active_processors self feed_id = Some r"
    and "objects self r = Some p"
    and "workers self r = Some t"
    and "phase t = Streaming"
    and "is_processing p"
  shows "(\<exists>p'. objects (stop_feed self feed_id) r = Some p'
               \<and> stop_event p' \<and> \<not> is_processing p'
               \<and> video_handler p' = video_handler p)
         \<and> active_processors (stop_feed self feed_id) feed_id = None
         \<and> workers (stop_feed self feed_id) r = Some t
         \<and> (\<exists>p''. objects (worker_step w model r (stop_feed self feed_id)) r = Some p''
                  \<and> \<not> handle_open (video_handler p'') \<and> \<not> is_processing p'')
         \<and> map_option phase (workers (worker_step w model r (stop_feed self feed_id)) r)
             = Some Exited
         \<and> active_processors (worker_step w model r (stop_feed self feed_id)) feed_id = None
         \<and> (objects s2 r2 = Some q \<and> workers s2 r2 = Some u
              \<and> (phase u = Created \<or> phase u = Streaming)
              \<and> workers (worker_step w model r2 s2) r2 = Some u'
              \<and> (phase u' = Exited \<or> (\<exists>e. phase u' = Died e))
            \<longrightarrow> (\<exists>q'. objects (worker_step w model r2 s2) r2 = Some q'
                      \<and> \<not> handle_open (video_handler q') \<and> \<not> is_processing q'))"
proof -
  let ?s = "stop_feed self feed_id"
  note st = stop_feed_effect [OF assms(1,2)]
  have wk: "workers ?s r = Some t" using st(3) assms(3) by simp
  have flag: "\<not> is_processing (stop_processing p) \<or> stop_event (stop_processing p)"
    by (simp add: stop_processing_def)
  note ob = worker_observes_stop [OF st(1) wk assms(4) flag, of w model]
  have "\<not> is_processing (finally_release (stop_processing p))"
    by (simp add: finally_release_def)
  moreover have "objects s2 r2 = Some q \<and> workers s2 r2 = Some u
              \<and> (phase u = Created \<or> phase u = Streaming)
              \<and> workers (worker_step w model r2 s2) r2 = Some u'
              \<and> (phase u' = Exited \<or> (\<exists>e. phase u' = Died e))
            \<longrightarrow> (\<exists>q'. objects (worker_step w model r2 s2) r2 = Some q'
                      \<and> \<not> handle_open (video_handler q') \<and> \<not> is_processing q')"
    using worker_exit_releases [of s2 r2 q u w model u'] by blast
  ultimately show ?thesis
    using st wk ob released_closed [of "stop_processing p"]
    by (simp add: stop_processing_def)
qed

theorem stop_feed_signals_and_unregisters_witness:
  "(\<exists>s. upload_and_process_video (new_service :: nat video_analysis_service)
           1700000000 ''7'' ''/videos/7/a.mp4'' ''cam'' = Inr (''7_cam_1700000000'', s)
       \<and> map_option (handle_open \<circ> video_handler)
            (objects (worker_step (recording_world 3) failing_model 0 s) 0) = Some True
       \<and> active_processors
            (stop_feed (worker_step (recording_world 3) failing_model 0 s) ''7_cam_1700000000'')
            ''7_cam_1700000000'' = None
       \<and> map_option phase
            (workers
               (worker_step (recording_world 3) failing_model 0
                  (stop_feed (worker_step (recording_world 3) failing_model 0 s)
                     ''7_cam_1700000000'')) 0) = Some Exited)
   \<and> map_option (handle_open \<circ> video_handler)
        (objects
           (worker_step (recording_world 3) failing_model 0
              ((new_service :: nat video_analysis_service)
                 \<lparr>objects := [0 \<mapsto> \<lparr>video_handler =
                                       \<lparr>kind = UploadedVideoHandler ''/videos/7/a.mp4'',
                                        cap = Some \<lparr>frames = [], is_opened = True\<rparr>\<rparr>,
                                     vp_junction_id = ''7'', frame_count = 3,
                                     is_processing = True, stop_event = False\<rparr>],
                   workers := [0 \<mapsto> \<lparr>w_feed_id = ''7_cam_1700000000'', phase = Streaming\<rparr>]\<rparr>))
           0) = Some False"
proof -
  let ?fid = "''7_cam_1700000000''"
  obtain s where up: "upload_and_process_video (new_service :: nat video_analysis_service)
           1700000000 ''7'' ''/videos/7/a.mp4'' ''cam'' = Inr (?fid, s)"
    by (simp add: upload_and_process_video_def start_feed_def make_feed_id_def py_str_def
        digit_char_def Let_def)
  let ?s1 = "worker_step (recording_world 3) failing_model 0 s"
  let ?p = "\<lparr>video_handler = \<lparr>kind = UploadedVideoHandler ''/videos/7/a.mp4'',
                                cap = Some \<lparr>frames = [1, 1, 1::nat], is_opened = True\<rparr>\<rparr>,
            vp_junction_id = ''7'', frame_count = 0, is_processing = True, stop_event = False\<rparr>"
  let ?t = "\<lparr>w_feed_id = ?fid, phase = Streaming\<rparr>"
  let ?pe = "\<lparr>video_handler = \<lparr>kind = UploadedVideoHandler ''/videos/7/a.mp4'',
                                 cap = Some \<lparr>frames = [] :: nat list, is_opened = True\<rparr>\<rparr>,
             vp_junction_id = ''7'', frame_count = 3, is_processing = True, stop_event = False\<rparr>"
  let ?se = "(new_service :: nat video_analysis_service)
               \<lparr>objects := [0 \<mapsto> ?pe], workers := [0 \<mapsto> ?t]\<rparr>"
  let ?te = "\<lparr>w_feed_id = ?fid, phase = Exited\<rparr>"
  have s1: "active_processors ?s1 ?fid = Some 0" "objects ?s1 0 = Some ?p" "workers ?s1 0 = Some ?t"
    using up
    by (auto simp: upload_and_process_video_def start_feed_def new_service_def
        new_processor_def new_handler_def worker_step_def get_video_stream_def
        recording_world_def new_capture_def Let_def numeral_3_eq_3)
  have fl: "phase ?t = Streaming" "is_processing ?p" by simp_all
  have se: "objects ?se 0 = Some ?pe \<and> workers ?se 0 = Some ?t
            \<and> (phase ?t = Created \<or> phase ?t = Streaming)
            \<and> workers (worker_step (recording_world 3) failing_model 0 ?se) 0 = Some ?te
            \<and> (phase ?te = Exited \<or> (\<exists>e. phase ?te = Died e))"
    by (simp add: worker_step_def read_frame_def)
  note inst = stop_feed_signals_and_unregisters
                [OF s1 fl, of "recording_world 3" failing_model ?se 0 ?pe ?t ?te]
  from inst
  have "active_processors (stop_feed ?s1 ?fid) ?fid = None
        \<and> map_option phase
             (workers (worker_step (recording_world 3) failing_model 0 (stop_feed ?s1 ?fid)) 0)
            = Some Exited"
    by simp
  moreover have "map_option (handle_open \<circ> video_handler) (objects ?s1 0) = Some True"
    using s1(2) by (simp add: handle_open_def)
  moreover from inst se
  have "map_option (handle_open \<circ> video_handler)
          (objects (worker_step (recording_world 3) failing_model 0 ?se) 0) = Some False"
    by auto
  ultimately show ?thesis using up by blast
qed

subsection \<open>Detector failures in a worker\<close>

lemma worker_step_frame:
  assumes "objects s r = Some p" and "workers s r = Some t" and "phase t = Streaming"
    and "is_processing p" and "\<not> stop_event p"
    and "read_frame (video_handler p) = Some (frame, h)"
  shows "worker_step w model r s =
           (let n = frame_count p + 1;
                s' = s\<lparr>objects := (objects s)(r \<mapsto> p\<lparr>video_handler := h, frame_count := n\<rparr>)\<rparr>
            in if n mod 30 = 0
               then process_yielded w model (w_feed_id t) (vp_junction_id p) frame n s'
               else s')"
  using assms by (simp add: worker_step_def)

lemma worker_step_end:
  assumes "objects s r = Some p" and "workers s r = Some t" and "phase t = Streaming"
    and "is_processing p" and "\<not> stop_event p"
    and "read_frame (video_handler p) = None"
  shows "worker_step w model r s =
           s\<lparr>objects := (objects s)(r \<mapsto> finally_release p),
             workers := (workers s)(r \<mapsto> t\<lparr>phase := Exited\<rparr>),
             log := log s @ [StreamEnded]\<rparr>"
  using assms by (simp add: worker_step_def)

lemma worker_step_open:
  assumes "objects s r = Some p" and "workers s r = Some t" and "phase t = Created"
    and "get_video_stream w (video_handler p) = (h, None)"
  shows "worker_step w model r s =
           s\<lparr>objects := (objects s)(r \<mapsto> p\<lparr>video_handler := h, is_processing := True\<rparr>),
             workers := (workers s)(r \<mapsto> t\<lparr>phase := Streaming\<rparr>)\<rparr>"
  using assms by (simp add: worker_step_def)

lemma worker_steps_Suc:
  "worker_steps w model r (Suc n) s = worker_steps w model r n (worker_step w model r s)"
  by (simp add: worker_steps_def funpow_swap1)

lemma sampled_count:
  "(if Suc c mod 30 = 0 then 1 else 0) + ((Suc c + n) div 30 - Suc c div 30)
     = (c + Suc n) div 30 - c div (30::nat)"
proof -
  have a: "Suc c div 30 = c div 30 + (if Suc c mod 30 = 0 then 1 else 0)"
    by (simp add: div_Suc)
  have b: "Suc c div 30 \<le> (Suc c + n) div 30"
    by (rule div_le_mono) simp
  show ?thesis using a b by (simp split: if_splits)
qed

lemma failing_stream:
  assumes fail: "\<And>f. process_frame model f = Inl e"
  shows "objects s r = Some p \<Longrightarrow> workers s r = Some t \<Longrightarrow> phase t = Streaming \<Longrightarrow>
         is_processing p \<Longrightarrow> \<not> stop_event p \<Longrightarrow>
         cap (video_handler p) = Some \<lparr>frames = fs, is_opened = True\<rparr> \<Longrightarrow>
         (let s' = worker_steps w model r (Suc (length fs)) s
          in log s' = log s @ replicate ((frame_count p + length fs) div 30 - frame_count p div 30)
                               (ErrorProcessingFrame (w_feed_id t) e) @ [StreamEnded]
             \<and> map_option frame_count (objects s' r) = Some (frame_count p + length fs)
             \<and> map_option (handle_open \<circ> video_handler) (objects s' r) = Some False
             \<and> workers s' r = Some (t\<lparr>phase := Exited\<rparr>)
             \<and> analysis_results s' = analysis_results s
             \<and> active_processors s' = active_processors s
             \<and> saved s' = saved s)"
proof (induction fs arbitrary: s p)
  case Nil
  have rd: "read_frame (video_handler p) = None"
    using Nil.prems(6) by (simp add: read_frame_def)
  have "worker_steps w model r (Suc 0) s = worker_step w model r s"
    by (simp add: worker_steps_def)
  then show ?case
    using worker_step_end [OF Nil.prems(1-5) rd, of w model] released_closed [of p]
    by (simp add: Let_def finally_release_def)
next
  case (Cons f fs)
  let ?h = "(video_handler p)\<lparr>cap := Some \<lparr>frames = fs, is_opened = True\<rparr>\<rparr>"
  let ?p = "p\<lparr>video_handler := ?h, frame_count := Suc (frame_count p)\<rparr>"
  let ?s1 = "worker_step w model r s"
  have rd: "read_frame (video_handler p) = Some (f, ?h)"
    using Cons.prems(6) by (simp add: read_frame_def)
  have s1: "?s1 = s\<lparr>objects := (objects s)(r \<mapsto> ?p),
                    log := log s @ (if Suc (frame_count p) mod 30 = 0
                                    then [ErrorProcessingFrame (w_feed_id t) e] else [])\<rparr>"
    using worker_step_frame [OF Cons.prems(1-5) rd, of w model]
    by (simp add: Let_def process_yielded_def fail)
  have o1: "objects ?s1 r = Some ?p" and w1: "workers ?s1 r = Some t"
    using Cons.prems(2) by (simp_all add: s1)
  have ih: "let s' = worker_steps w model r (Suc (length fs)) ?s1
            in log s' = log ?s1 @ replicate ((frame_count ?p + length fs) div 30
                                             - frame_count ?p div 30)
                                   (ErrorProcessingFrame (w_feed_id t) e) @ [StreamEnded]
               \<and> map_option frame_count (objects s' r) = Some (frame_count ?p + length fs)
               \<and> map_option (handle_open \<circ> video_handler) (objects s' r) = Some False
               \<and> workers s' r = Some (t\<lparr>phase := Exited\<rparr>)
               \<and> analysis_results s' = analysis_results ?s1
               \<and> active_processors s' = active_processors ?s1
               \<and> saved s' = saved ?s1"
    using Cons.prems(3-5) by (intro Cons.IH [OF o1 w1]) simp_all
  have fc: "frame_count ?p = Suc (frame_count p)" by simp
  have l1: "log ?s1 = log s @ replicate (if Suc (frame_count p) mod 30 = 0 then 1 else 0)
                               (ErrorProcessingFrame (w_feed_id t) e)"
    by (simp add: s1)
  have "log ?s1 @ replicate ((Suc (frame_count p) + length fs) div 30 - Suc (frame_count p) div 30)
                    (ErrorProcessingFrame (w_feed_id t) e)
        = log s @ replicate ((if Suc (frame_count p) mod 30 = 0 then 1 else 0)
                             + ((Suc (frame_count p) + length fs) div 30
                                - Suc (frame_count p) div 30))
                    (ErrorProcessingFrame (w_feed_id t) e)"
    unfolding l1 by (simp only: append_assoc replicate_add)
  then have lg: "log ?s1 @ replicate ((frame_count ?p + length fs) div 30 - frame_count ?p div 30)
                        (ErrorProcessingFrame (w_feed_id t) e)
            = log s @ replicate ((frame_count p + length (f # fs)) div 30 - frame_count p div 30)
                        (ErrorProcessingFrame (w_feed_id t) e)"
    unfolding fc sampled_count [of "frame_count p" "length fs"] by simp
  have rest: "analysis_results ?s1 = analysis_results s"
    "active_processors ?s1 = active_processors s" "saved ?s1 = saved s"
    by (simp_all add: s1)
  have lg': "log ?s1 @ replicate ((frame_count ?p + length fs) div 30 - frame_count ?p div 30)
                         (ErrorProcessingFrame (w_feed_id t) e) @ [StreamEnded]
             = log s @ replicate ((frame_count p + length (f # fs)) div 30 - frame_count p div 30)
                         (ErrorProcessingFrame (w_feed_id t) e) @ [StreamEnded]"
    using arg_cong [OF lg, of "\<lambda>xs. xs @ [StreamEnded]"] by (simp only: append_assoc)
  have ws: "worker_steps w model r (Suc (length (f # fs))) s
              = worker_steps w model r (Suc (length fs)) ?s1"
    by (simp add: worker_steps_Suc)
  let ?s2 = "worker_steps w model r (Suc (length fs)) ?s1"
  from ih have A: "log ?s2 = log ?s1 @ replicate ((frame_count ?p + length fs) div 30
                                                   - frame_count ?p div 30)
                                         (ErrorProcessingFrame (w_feed_id t) e) @ [StreamEnded]"
    unfolding Let_def by (rule conjunct1)
  have A': "log ?s2 = log s @ replicate ((frame_count p + length (f # fs)) div 30
                                         - frame_count p div 30)
                               (ErrorProcessingFrame (w_feed_id t) e) @ [StreamEnded]"
    by (simp only: A lg')
  from ih have B: "map_option frame_count (objects ?s2 r) = Some (frame_count p + length (f # fs))"
    "map_option (handle_open \<circ> video_handler) (objects ?s2 r) = Some False"
    "workers ?s2 r = Some (t\<lparr>phase := Exited\<rparr>)"
    "analysis_results ?s2 = analysis_results s"
    "active_processors ?s2 = active_processors s"
    "saved ?s2 = saved s"
    unfolding Let_def rest by simp_all
  show ?case
    unfolding ws Let_def using A' B by blast
qed


lemma failing_upload_run:
  assumes fail: "\<And>f. process_frame model f = Inl e"
    and ex: "path_exists w file_path" and vc: "video_capture w file_path = Some fs"
    and up: "upload_and_process_video self now j file_path feed_name = Inr (feed_id, s)"
  shows "let s' = worker_steps w model (next_ref self) (length fs + 2) s
         in log s' = log self @ replicate (length fs div 30) (ErrorProcessingFrame feed_id e)
                       @ [StreamEnded]
            \<and> map_option frame_count (objects s' (next_ref self)) = Some (length fs)
            \<and> map_option (handle_open \<circ> video_handler) (objects s' (next_ref self)) = Some False
            \<and> map_option phase (workers s' (next_ref self)) = Some Exited
            \<and> analysis_results s' = analysis_results self
            \<and> active_processors s' feed_id = Some (next_ref self)
            \<and> saved s' = saved self"
proof -
  let ?r = "next_ref self"
  let ?hn = "new_handler (UploadedVideoHandler file_path) :: 'a video_handler"
  let ?h = "?hn\<lparr>cap := Some \<lparr>frames = fs, is_opened = True\<rparr>\<rparr>"
  let ?pn = "new_processor ?hn j"
  let ?p = "?pn\<lparr>video_handler := ?h, is_processing := True\<rparr>"
  let ?tn = "\<lparr>w_feed_id = feed_id, phase = Created\<rparr>"
  let ?t = "?tn\<lparr>phase := Streaming\<rparr>"
  let ?s1 = "worker_step w model ?r s"
  from up have sf: "start_feed self now j feed_name ?hn = (feed_id, s)"
    by (simp add: upload_and_process_video_def)
  note reg = start_feed_registers [OF sf]
  have o0: "objects s ?r = Some ?pn" and w0: "workers s ?r = Some ?tn"
    and r0: "analysis_results s = analysis_results self"
    and a0: "active_processors s feed_id = Some ?r"
    using reg by auto
  have l0: "log s = log self" and sv0: "saved s = saved self"
    using sf by (auto simp: start_feed_def Let_def)
  have gv: "get_video_stream w (video_handler ?pn) = (?h, None)"
    using ex vc
    by (simp add: get_video_stream_def new_processor_def new_handler_def new_capture_def)
  have s1: "?s1 = s\<lparr>objects := (objects s)(?r \<mapsto> ?p), workers := (workers s)(?r \<mapsto> ?t)\<rparr>"
    using worker_step_open [OF o0 w0 _ gv, of model] by simp
  have o1: "objects ?s1 ?r = Some ?p" and w1: "workers ?s1 ?r = Some ?t"
    by (simp_all add: s1)
  have run: "let s' = worker_steps w model ?r (Suc (length fs)) ?s1
             in log s' = log ?s1 @ replicate ((frame_count ?p + length fs) div 30
                                              - frame_count ?p div 30)
                                    (ErrorProcessingFrame (w_feed_id ?t) e) @ [StreamEnded]
                \<and> map_option frame_count (objects s' ?r) = Some (frame_count ?p + length fs)
                \<and> map_option (handle_open \<circ> video_handler) (objects s' ?r) = Some False
                \<and> workers s' ?r = Some (?t\<lparr>phase := Exited\<rparr>)
                \<and> analysis_results s' = analysis_results ?s1
                \<and> active_processors s' = active_processors ?s1
                \<and> saved s' = saved ?s1"
    by (intro failing_stream [OF fail o1 w1]) (simp_all add: new_processor_def)
  have ws: "worker_steps w model ?r (length fs + 2) s
              = worker_steps w model ?r (Suc (length fs)) ?s1"
    by (simp add: worker_steps_Suc)
  have same: "log ?s1 = log self" "analysis_results ?s1 = analysis_results self"
    "active_processors ?s1 feed_id = Some ?r" "saved ?s1 = saved self"
    using l0 r0 a0 sv0 by (simp_all add: s1)
  have fc: "frame_count ?p = 0" by (simp add: new_processor_def)
  show ?thesis
    using run unfolding ws Let_def fc same(1,2,4)
    using same(3) by simp
qed

text \<open>
  C8 as stated fails in its second half: on a recording of 3000 frames with a detector
  that raises at every sampled frame, the worker logs 100 consecutive failures, reads all
  3000 frames and ends at the end of the stream; the feed never fails.
\<close>

theorem consecutive_failures_counterexample:
  "(\<exists>s. upload_and_process_video (new_service :: nat video_analysis_service)
           1700000000 ''7'' ''/videos/7/a.mp4'' ''cam'' = Inr (''7_cam_1700000000'', s)
       \<and> log (worker_steps (recording_world 3000) failing_model 0 3002 s)
           = replicate 100 (ErrorProcessingFrame ''7_cam_1700000000'' DetectorError)
             @ [StreamEnded]
       \<and> map_option frame_count
            (objects (worker_steps (recording_world 3000) failing_model 0 3002 s) 0) = Some 3000
       \<and> map_option phase
            (workers (worker_steps (recording_world 3000) failing_model 0 3002 s) 0)
           = Some Exited)"
proof -
  let ?fid = "''7_cam_1700000000''"
  let ?new = "new_service :: nat video_analysis_service"
  obtain s where up: "upload_and_process_video ?new 1700000000 ''7'' ''/videos/7/a.mp4'' ''cam''
                        = Inr (?fid, s)"
    by (simp add: upload_and_process_video_def start_feed_def make_feed_id_def py_str_def
        digit_char_def Let_def)
  have fail: "\<And>f. process_frame failing_model f = Inl DetectorError"
    by (simp add: process_frame_def failing_model_def)
  have ex: "path_exists (recording_world 3000) ''/videos/7/a.mp4''"
    and vc: "video_capture (recording_world 3000) ''/videos/7/a.mp4'' = Some (replicate 3000 1)"
    by (simp_all add: recording_world_def)
  from failing_upload_run [OF fail ex vc up]
  have "log (worker_steps (recording_world 3000) failing_model 0 3002 s)
          = replicate 100 (ErrorProcessingFrame ?fid DetectorError) @ [StreamEnded]
        \<and> map_option frame_count
             (objects (worker_steps (recording_world 3000) failing_model 0 3002 s) 0) = Some 3000
        \<and> map_option phase
             (workers (worker_steps (recording_world 3000) failing_model 0 3002 s) 0)
            = Some Exited"
    by (simp add: Let_def new_service_def)
  with up show ?thesis by blast
qed

text \<open>
  C8, amended. When the detector raises on a sampled frame, the failure is non-fatal:
  the worker logs the error, publishes and saves nothing for that frame, and stays in its
  loop with the frame consumed. No number of consecutive failures ends the feed: on a
  recording of any length with a detector that raises on every frame, the worker logs one
  error per sampled frame, reads every frame and ends only at the end of the stream, with
  the registry entry and the published results as they were.
\<close>

theorem detector_failure_nonfatal:
  "(objects s r = Some p \<and> workers s r = Some t \<and> phase t = Streaming
      \<and> is_processing p \<and> \<not> stop_event p
      \<and> read_frame (video_handler p) = Some (frame, h)
      \<and> Suc (frame_count p) mod 30 = 0 \<and> process_frame model frame = Inl e
    \<longrightarrow> worker_step w model r s =
          s\<lparr>objects := (objects s)(r \<mapsto> p\<lparr>video_handler := h,
                                              frame_count := Suc (frame_count p)\<rparr>),
            log := log s @ [ErrorProcessingFrame (w_feed_id t) e]\<rparr>)
   \<and> ((\<forall>f. process_frame model f = Inl e) \<and> path_exists w file_path
        \<and> video_capture w file_path = Some fs
        \<and> upload_and_process_video self now j file_path feed_name = Inr (feed_id, s0)
      \<longrightarrow> (let s' = worker_steps w model (next_ref self) (length fs + 2) s0
           in log s' = log self @ replicate (length fs div 30) (ErrorProcessingFrame feed_id e)
                         @ [StreamEnded]
              \<and> map_option frame_count (objects s' (next_ref self)) = Some (length fs)
              \<and> map_option phase (workers s' (next_ref self)) = Some Exited
              \<and> analysis_results s' = analysis_results self
              \<and> active_processors s' feed_id = Some (next_ref self)))"
proof (intro conjI impI)
  assume a: "objects s r = Some p \<and> workers s r = Some t \<and> phase t = Streaming
      \<and> is_processing p \<and> \<not> stop_event p
      \<and> read_frame (video_handler p) = Some (frame, h)
      \<and> Suc (frame_count p) mod 30 = 0 \<and> process_frame model frame = Inl e"
  then have "worker_step w model r s =
           (let n = frame_count p + 1;
                s' = s\<lparr>objects := (objects s)(r \<mapsto> p\<lparr>video_handler := h, frame_count := n\<rparr>)\<rparr>
            in if n mod 30 = 0
               then process_yielded w model (w_feed_id t) (vp_junction_id p) frame n s'
               else s')"
    by (intro worker_step_frame) simp_all
  with a show "worker_step w model r s =
          s\<lparr>objects := (objects s)(r \<mapsto> p\<lparr>video_handler := h,
                                              frame_count := Suc (frame_count p)\<rparr>),
            log := log s @ [ErrorProcessingFrame (w_feed_id t) e]\<rparr>"
    by (simp add: Let_def process_yielded_def)
next
  assume b: "(\<forall>f. process_frame model f = Inl e) \<and> path_exists w file_path
        \<and> video_capture w file_path = Some fs
        \<and> upload_and_process_video self now j file_path feed_name = Inr (feed_id, s0)"
  then have fail: "\<And>f. process_frame model f = Inl e"
    and ex: "path_exists w file_path" and vc: "video_capture w file_path = Some fs"
    and up: "upload_and_process_video self now j file_path feed_name = Inr (feed_id, s0)"
    by simp_all
  from failing_upload_run [OF fail ex vc up]
  show "let s' = worker_steps w model (next_ref self) (length fs + 2) s0
           in log s' = log self @ replicate (length fs div 30) (ErrorProcessingFrame feed_id e)
                         @ [StreamEnded]
              \<and> map_option frame_count (objects s' (next_ref self)) = Some (length fs)
              \<and> map_option phase (workers s' (next_ref self)) = Some Exited
              \<and> analysis_results s' = analysis_results self
              \<and> active_processors s' feed_id = Some (next_ref self)"
    by (simp add: Let_def)
qed

theorem detector_failure_nonfatal_witness:
  "(\<exists>s. upload_and_process_video (new_service :: nat video_analysis_service)
           1700000000 ''7'' ''/videos/7/a.mp4'' ''cam'' = Inr (''7_cam_1700000000'', s)
       \<and> log (worker_steps (recording_world 90) failing_model 0 92 s)
           = replicate 3 (ErrorProcessingFrame ''7_cam_1700000000'' DetectorError)
             @ [StreamEnded]
       \<and> map_option phase (workers (worker_steps (recording_world 90) failing_model 0 92 s) 0)
           = Some Exited)
   \<and> log (worker_step (recording_world 90) failing_model 0
             ((new_service :: nat video_analysis_service)
                \<lparr>objects := [0 \<mapsto> \<lparr>video_handler =
                                      \<lparr>kind = UploadedVideoHandler ''/videos/7/a.mp4'',
                                       cap = Some \<lparr>frames = [1, 1], is_opened = True\<rparr>\<rparr>,
                                    vp_junction_id = ''7'', frame_count = 29,
                                    is_processing = True, stop_event = False\<rparr>],
                  workers := [0 \<mapsto> \<lparr>w_feed_id = ''7_cam_1700000000'', phase = Streaming\<rparr>]\<rparr>))
       = [ErrorProcessingFrame ''7_cam_1700000000'' DetectorError]"
proof -
  let ?fid = "''7_cam_1700000000''"
  let ?new = "new_service :: nat video_analysis_service"
  let ?w = "recording_world 90"
  let ?p = "\<lparr>video_handler = \<lparr>kind = UploadedVideoHandler ''/videos/7/a.mp4'',
                                cap = Some \<lparr>frames = [1, 1::nat], is_opened = True\<rparr>\<rparr>,
            vp_junction_id = ''7'', frame_count = 29,
            is_processing = True, stop_event = False\<rparr>"
  let ?t = "\<lparr>w_feed_id = ?fid, phase = Streaming\<rparr>"
  let ?s = "?new\<lparr>objects := [0 \<mapsto> ?p], workers := [0 \<mapsto> ?t]\<rparr>"
  let ?h = "\<lparr>kind = UploadedVideoHandler ''/videos/7/a.mp4'',
             cap = Some \<lparr>frames = [1::nat], is_opened = True\<rparr>\<rparr>"
  obtain s where up: "upload_and_process_video ?new 1700000000 ''7'' ''/videos/7/a.mp4'' ''cam''
                        = Inr (?fid, s)"
    by (simp add: upload_and_process_video_def start_feed_def make_feed_id_def py_str_def
        digit_char_def Let_def)
  have fail: "\<forall>f. process_frame failing_model f = Inl DetectorError"
    by (simp add: process_frame_def failing_model_def)
  have ex: "path_exists ?w ''/videos/7/a.mp4''"
    and vc: "video_capture ?w ''/videos/7/a.mp4'' = Some (replicate 90 1)"
    by (simp_all add: recording_world_def)
  have st: "objects ?s 0 = Some ?p \<and> workers ?s 0 = Some ?t \<and> phase ?t = Streaming
      \<and> is_processing ?p \<and> \<not> stop_event ?p
      \<and> read_frame (video_handler ?p) = Some (1, ?h)
      \<and> Suc (frame_count ?p) mod 30 = 0 \<and> process_frame failing_model 1 = Inl DetectorError"
    using fail by (simp add: read_frame_def)
  note inst = detector_failure_nonfatal
    [of ?s 0 ?p ?t 1 ?h failing_model DetectorError ?w "''/videos/7/a.mp4''" "replicate 90 1"
        ?new 1700000000 "''7''" "''cam''" ?fid s]
  from inst st have "log (worker_step ?w failing_model 0 ?s)
                      = [ErrorProcessingFrame ?fid DetectorError]"
    by (simp add: new_service_def)
  moreover from inst fail ex vc up
  have "log (worker_steps ?w failing_model 0 92 s)
          = replicate 3 (ErrorProcessingFrame ?fid DetectorError) @ [StreamEnded]
        \<and> map_option phase (workers (worker_steps ?w failing_model 0 92 s) 0) = Some Exited"
    by (simp add: Let_def new_service_def)
  ultimately show ?thesis using up by blast
qed

subsection \<open>Published results\<close>

lemma quiet_steps:
  "objects s r = Some p \<Longrightarrow> workers s r = Some t \<Longrightarrow> phase t = Streaming \<Longrightarrow>
   is_processing p \<Longrightarrow> \<not> stop_event p \<Longrightarrow>
   cap (video_handler p) = Some \<lparr>frames = fs, is_opened = True\<rparr> \<Longrightarrow>
   k \<le> length fs \<Longrightarrow> frame_count p mod 30 + k < 30 \<Longrightarrow>
   objects (worker_steps w model r k s) r =
     Some (p\<lparr>video_handler := (video_handler p)\<lparr>cap := Some \<lparr>frames = drop k fs, is_opened = True\<rparr>\<rparr>,
            frame_count := frame_count p + k\<rparr>)
   \<and> workers (worker_steps w model r k s) r = Some t
   \<and> analysis_results (worker_steps w model r k s) = analysis_results s
   \<and> active_processors (worker_steps w model r k s) = active_processors s"
proof (induction k arbitrary: s p fs)
  case 0
  have b: "p\<lparr>video_handler := (video_handler p)\<lparr>cap := Some \<lparr>frames = drop 0 fs, is_opened = True\<rparr>\<rparr>,
            frame_count := frame_count p + 0\<rparr> = p"
    using "0.prems"(6) by simp
  show ?case
    unfolding b using "0.prems"(1,2) by (simp add: worker_steps_def)
next
  case (Suc k)
  then obtain f fs' where fs: "fs = f # fs'" by (cases fs) auto
  let ?h = "(video_handler p)\<lparr>cap := Some \<lparr>frames = fs', is_opened = True\<rparr>\<rparr>"
  let ?p = "p\<lparr>video_handler := ?h, frame_count := Suc (frame_count p)\<rparr>"
  let ?s1 = "worker_step w model r s"
  have rd: "read_frame (video_handler p) = Some (f, ?h)"
    using Suc.prems(6) by (simp add: read_frame_def fs)
  have nz: "Suc (frame_count p) mod 30 \<noteq> 0"
    using Suc.prems(8) by (simp add: mod_Suc split: if_splits)
  have s1: "?s1 = s\<lparr>objects := (objects s)(r \<mapsto> ?p)\<rparr>"
    using worker_step_frame [OF Suc.prems(1-5) rd, of w model] nz
    by (simp add: Let_def)
  have o1: "objects ?s1 r = Some ?p" and w1: "workers ?s1 r = Some t"
    using Suc.prems(2) by (simp_all add: s1)
  have rest: "analysis_results ?s1 = analysis_results s"
    "active_processors ?s1 = active_processors s"
    by (simp_all add: s1)
  have m: "frame_count ?p mod 30 + k < 30"
    using Suc.prems(8) by (simp add: mod_Suc split: if_splits)
  have "objects (worker_steps w model r k ?s1) r =
          Some (?p\<lparr>video_handler := (video_handler ?p)\<lparr>cap := Some \<lparr>frames = drop k fs', is_opened = True\<rparr>\<rparr>,
                  frame_count := frame_count ?p + k\<rparr>)
        \<and> workers (worker_steps w model r k ?s1) r = Some t
        \<and> analysis_results (worker_steps w model r k ?s1) = analysis_results ?s1
        \<and> active_processors (worker_steps w model r k ?s1) = active_processors ?s1"
    using Suc.prems(3-5,7) m by (intro Suc.IH [OF o1 w1]) (simp_all add: fs)
  then show ?case
    unfolding worker_steps_Suc rest by (simp add: fs)
qed


lemma worker_steps_Suc_last:
  "worker_steps w model r (Suc n) s = worker_step w model r (worker_steps w model r n s)"
  by (simp add: worker_steps_def)

lemma first_snapshot:
  assumes ex: "path_exists w file_path" and vc: "video_capture w file_path = Some fs"
    and len: "30 \<le> length fs"
    and det: "process_frame model (fs ! 29) = Inr dets"
    and up: "upload_and_process_video self now j file_path feed_name = Inr (feed_id, s)"
  shows "analysis_results (worker_steps w model (next_ref self) 31 s) feed_id =
           Some \<lparr>ar_frame_count = 30, ar_vehicle_count = vehicle_count dets,
                 ar_vehicle_types = vehicle_types dets, ar_timestamp = utcnow w 30,
                 ar_detections = detections dets\<rparr>"
    and "active_processors (worker_steps w model (next_ref self) 31 s) feed_id
           = Some (next_ref self)"
    and "\<exists>p. objects (worker_steps w model (next_ref self) 31 s) (next_ref self) = Some p"
proof -
  let ?r = "next_ref self"
  let ?hn = "new_handler (UploadedVideoHandler file_path) :: 'a video_handler"
  let ?h = "?hn\<lparr>cap := Some \<lparr>frames = fs, is_opened = True\<rparr>\<rparr>"
  let ?pn = "new_processor ?hn j"
  let ?p = "?pn\<lparr>video_handler := ?h, is_processing := True\<rparr>"
  let ?tn = "\<lparr>w_feed_id = feed_id, phase = Created\<rparr>"
  let ?t = "?tn\<lparr>phase := Streaming\<rparr>"
  let ?s1 = "worker_step w model ?r s"
  let ?s30 = "worker_steps w model ?r 29 ?s1"
  from up have sf: "start_feed self now j feed_name ?hn = (feed_id, s)"
    by (simp add: upload_and_process_video_def)
  note reg = start_feed_registers [OF sf]
  have o0: "objects s ?r = Some ?pn" and w0: "workers s ?r = Some ?tn"
    and a0: "active_processors s feed_id = Some ?r"
    using reg by auto
  have gv: "get_video_stream w (video_handler ?pn) = (?h, None)"
    using ex vc
    by (simp add: get_video_stream_def new_processor_def new_handler_def new_capture_def)
  have s1: "?s1 = s\<lparr>objects := (objects s)(?r \<mapsto> ?p), workers := (workers s)(?r \<mapsto> ?t)\<rparr>"
    using worker_step_open [OF o0 w0 _ gv, of model] by simp
  have o1: "objects ?s1 ?r = Some ?p" and w1: "workers ?s1 ?r = Some ?t"
    and a1: "active_processors ?s1 feed_id = Some ?r"
    using a0 by (simp_all add: s1)
  let ?p29 = "?p\<lparr>video_handler := (video_handler ?p)\<lparr>cap := Some \<lparr>frames = drop 29 fs,
                                                                    is_opened = True\<rparr>\<rparr>,
                 frame_count := frame_count ?p + 29\<rparr>"
  have q: "objects ?s30 ?r = Some ?p29 \<and> workers ?s30 ?r = Some ?t
           \<and> analysis_results ?s30 = analysis_results ?s1
           \<and> active_processors ?s30 = active_processors ?s1"
    using len by (intro quiet_steps [OF o1 w1]) (simp_all add: new_processor_def)
  then have o30: "objects ?s30 ?r = Some ?p29" and w30: "workers ?s30 ?r = Some ?t"
    and a30: "active_processors ?s30 feed_id = Some ?r"
    using a1 by simp_all
  have lt: "29 < length fs" using len by simp
  define rest where "rest = drop (Suc 29) fs"
  have dr: "drop 29 fs = fs ! 29 # rest"
    unfolding rest_def by (rule Cons_nth_drop_Suc [OF lt, symmetric])
  let ?h30 = "(video_handler ?p29)\<lparr>cap := Some \<lparr>frames = rest, is_opened = True\<rparr>\<rparr>"
  have rd: "read_frame (video_handler ?p29) = Some (fs ! 29, ?h30)"
    by (simp add: read_frame_def dr)
  have fl: "is_processing ?p29" "\<not> stop_event ?p29" "phase ?t = Streaming"
    "frame_count ?p29 = 29"
    by (simp_all add: new_processor_def)
  have s31: "worker_step w model ?r ?s30 =
               (let n = frame_count ?p29 + 1;
                    s' = ?s30\<lparr>objects := (objects ?s30)(?r \<mapsto>
                                  ?p29\<lparr>video_handler := ?h30, frame_count := n\<rparr>)\<rparr>
                in if n mod 30 = 0
                   then process_yielded w model (w_feed_id ?t) (vp_junction_id ?p29)
                          (fs ! 29) n s'
                   else s')"
    by (rule worker_step_frame [OF o30 w30 fl(3) fl(1) fl(2) rd])
  have ws: "worker_steps w model ?r 31 s = worker_step w model ?r ?s30"
  proof -
    have "worker_steps w model ?r 31 s = worker_steps w model ?r (Suc (Suc 29)) s"
      by (simp add: eval_nat_numeral)
    also have "\<dots> = worker_steps w model ?r (Suc 29) ?s1"
      by (rule worker_steps_Suc)
    also have "\<dots> = worker_step w model ?r ?s30"
      by (rule worker_steps_Suc_last)
    finally show ?thesis .
  qed
  show "analysis_results (worker_steps w model ?r 31 s) feed_id =
           Some \<lparr>ar_frame_count = 30, ar_vehicle_count = vehicle_count dets,
                 ar_vehicle_types = vehicle_types dets, ar_timestamp = utcnow w 30,
                 ar_detections = detections dets\<rparr>"
    unfolding ws s31 fl(4)
    by (simp add: Let_def process_yielded_def det save_analysis_result_def)
  show "active_processors (worker_steps w model ?r 31 s) feed_id = Some ?r"
    unfolding ws s31 fl(4) using a30
    by (simp add: Let_def process_yielded_def det save_analysis_result_def)
  show "\<exists>p. objects (worker_steps w model ?r 31 s) ?r = Some p"
    unfolding ws s31 fl(4)
    by (simp add: Let_def process_yielded_def det save_analysis_result_def)
qed

lemma worker_step_results:
  "analysis_results (worker_step w model r self) x = analysis_results self x
   \<or> (\<exists>p t frame h dets.
         objects self r = Some p \<and> workers self r = Some t \<and> w_feed_id t = x
         \<and> phase t = Streaming \<and> read_frame (video_handler p) = Some (frame, h)
         \<and> Suc (frame_count p) mod 30 = 0 \<and> process_frame model frame = Inr dets
         \<and> analysis_results (worker_step w model r self) x =
             Some \<lparr>ar_frame_count = Suc (frame_count p), ar_vehicle_count = vehicle_count dets,
                   ar_vehicle_types = vehicle_types dets,
                   ar_timestamp = utcnow w (Suc (frame_count p)),
                   ar_detections = detections dets\<rparr>)"
proof (cases "objects self r")
  case None
  then show ?thesis by (simp add: worker_step_def)
next
  case (Some p)
  note p = this
  show ?thesis
  proof (cases "workers self r")
    case None
    with p show ?thesis by (simp add: worker_step_def)
  next
    case (Some t)
    note t = this
    show ?thesis
    proof (cases "phase t")
      case Created
      with p t show ?thesis
        by (cases "get_video_stream w (video_handler p)")
           (auto simp: worker_step_def split: option.splits)
    next
      case Streaming
      note ph = this
      show ?thesis
      proof (cases "is_processing p \<and> \<not> stop_event p")
        case False
        with p t ph show ?thesis by (auto simp: worker_step_def)
      next
        case True
        show ?thesis
        proof (cases "read_frame (video_handler p)")
          case None
          with p t ph True show ?thesis by (simp add: worker_step_def)
        next
          case (Some fh)
          obtain frame h where fh: "fh = (frame, h)" by (cases fh)
          have rd: "read_frame (video_handler p) = Some (frame, h)"
            using Some fh by simp
          have st: "worker_step w model r self =
                 (let n = frame_count p + 1;
                      s' = self\<lparr>objects := (objects self)(r \<mapsto>
                                    p\<lparr>video_handler := h, frame_count := n\<rparr>)\<rparr>
                  in if n mod 30 = 0
                     then process_yielded w model (w_feed_id t) (vp_junction_id p) frame n s'
                     else s')"
            using True Some fh by (intro worker_step_frame [OF p t ph]) simp_all
          show ?thesis
          proof (cases "Suc (frame_count p) mod 30 = 0")
            case False
            then show ?thesis by (simp add: st Let_def)
          next
            case True
            note yield = this
            show ?thesis
            proof (cases "process_frame model frame")
              case (Inl e)
              with yield show ?thesis by (simp add: st Let_def process_yielded_def)
            next
              case (Inr dets)
              show ?thesis
              proof (cases "w_feed_id t = x")
                case False
                with yield Inr show ?thesis
                  by (simp add: st Let_def process_yielded_def save_analysis_result_def)
              next
                case True
                have "analysis_results (worker_step w model r self) x =
                        Some \<lparr>ar_frame_count = Suc (frame_count p),
                              ar_vehicle_count = vehicle_count dets,
                              ar_vehicle_types = vehicle_types dets,
                              ar_timestamp = utcnow w (Suc (frame_count p)),
                              ar_detections = detections dets\<rparr>"
                  using yield Inr True
                  by (simp add: st Let_def process_yielded_def save_analysis_result_def)
                with p t ph rd yield Inr True show ?thesis
                  by (intro disjI2 exI [of _ p] exI [of _ t] exI [of _ frame] exI [of _ h]
                      exI [of _ dets]) simp
              qed
            qed
          qed
        qed
      qed
    next
      case Exited
      with p t show ?thesis by (simp add: worker_step_def)
    next
      case (Died e)
      with p t show ?thesis by (simp add: worker_step_def)
    qed
  qed
qed

text \<open>
  C9 as stated fails: a feed whose first snapshot was published at frame 30 is stopped;
  its id is then unknown to the registry, and \<open>get_feed_results\<close> still returns the
  snapshot, not the empty dictionary.
\<close>

theorem stopped_feed_results_counterexample:
  "(\<exists>s. upload_and_process_video (new_service :: nat video_analysis_service)
           1700000000 ''7'' ''/videos/7/a.mp4'' ''cam'' = Inr (''7_cam_1700000000'', s)
       \<and> active_processors
            (stop_feed (worker_steps (recording_world 30) sample_model 0 31 s)
               ''7_cam_1700000000'') ''7_cam_1700000000'' = None
       \<and> map_option ar_frame_count
            (get_feed_results
               (stop_feed (worker_steps (recording_world 30) sample_model 0 31 s)
                  ''7_cam_1700000000'') ''7_cam_1700000000'') = Some 30)"
proof -
  let ?fid = "''7_cam_1700000000''"
  let ?new = "new_service :: nat video_analysis_service"
  let ?w = "recording_world 30"
  obtain s where up: "upload_and_process_video ?new 1700000000 ''7'' ''/videos/7/a.mp4'' ''cam''
                        = Inr (?fid, s)"
    by (simp add: upload_and_process_video_def start_feed_def make_feed_id_def py_str_def
        digit_char_def Let_def)
  let ?s31 = "worker_steps ?w sample_model (next_ref ?new) 31 s"
  have ex: "path_exists ?w ''/videos/7/a.mp4''"
    and vc: "video_capture ?w ''/videos/7/a.mp4'' = Some (replicate 30 1)"
    by (simp_all add: recording_world_def)
  obtain dets where det: "process_frame sample_model (replicate 30 1 ! 29) = Inr dets"
    by (simp add: process_frame_def sample_model_def)
  have len: "30 \<le> length (replicate 30 (1::nat))" by simp
  note fs = first_snapshot [OF ex vc len det up]
  from fs(3) obtain p where p: "objects ?s31 (next_ref ?new) = Some p" ..
  note st = stop_feed_effect [OF fs(2) p]
  have "map_option ar_frame_count (get_feed_results (stop_feed ?s31 ?fid) ?fid) = Some 30"
    using st(4) fs(1) by (simp add: get_feed_results_def)
  moreover have "next_ref ?new = 0" by (simp add: new_service_def)
  ultimately show ?thesis using up st(2) by auto
qed

text \<open>
  C9, amended. \<open>get_feed_results\<close> returns what was last published under the feed id,
  and empty when nothing was. A new service has no results; creating a feed and stopping
  a feed leave every result as it is; a step of a worker changes at most the result of its
  own feed id. When a worker has processed a sampled frame (every 30th) without error,
  \<open>get_feed_results\<close> returns the snapshot of that frame: its frame count, vehicle
  count, histogram, timestamp and detections. So a feed created on a recording of at least
  30 frames returns the snapshot of frame 30 once the worker has handled it, and keeps
  returning it after \<open>stop_feed\<close> has removed the feed from the registry.
\<close>

theorem feed_results_last_published:
  "get_feed_results (new_service :: 'f video_analysis_service) x = None
   \<and> (upload_and_process_video (self :: 'f video_analysis_service) now j file_path feed_name
        = Inr (feed_id, s') \<longrightarrow>
        get_feed_results s' x = get_feed_results self x)
   \<and> (add_youtube_feed self now j youtube_url feed_name = Inr (feed_id, s'') \<longrightarrow>
        get_feed_results s'' x = get_feed_results self x)
   \<and> get_feed_results (stop_feed self feed_id) x = get_feed_results self x
   \<and> (get_feed_results (worker_step w model r self) x = get_feed_results self x
      \<or> (\<exists>p t frame h dets.
            objects self r = Some p \<and> workers self r = Some t \<and> w_feed_id t = x
            \<and> phase t = Streaming \<and> read_frame (video_handler p) = Some (frame, h)
            \<and> Suc (frame_count p) mod 30 = 0 \<and> process_frame model frame = Inr dets
            \<and> get_feed_results (worker_step w model r self) x =
                Some \<lparr>ar_frame_count = Suc (frame_count p),
                      ar_vehicle_count = vehicle_count dets,
                      ar_vehicle_types = vehicle_types dets,
                      ar_timestamp = utcnow w (Suc (frame_count p)),
                      ar_detections = detections dets\<rparr>))
   \<and> (objects self r = Some p \<and> workers self r = Some t \<and> phase t = Streaming
        \<and> is_processing p \<and> \<not> stop_event p
        \<and> read_frame (video_handler p) = Some (frame, h)
        \<and> Suc (frame_count p) mod 30 = 0 \<and> process_frame model frame = Inr dets
      \<longrightarrow> get_feed_results (worker_step w model r self) (w_feed_id t) =
            Some \<lparr>ar_frame_count = Suc (frame_count p), ar_vehicle_count = vehicle_count dets,
                    ar_vehicle_types = vehicle_types dets, ar_timestamp = utcnow w (Suc (frame_count p)),
                    ar_detections = detections dets\<rparr>)
   \<and> (path_exists w file_path \<and> video_capture w file_path = Some fs \<and> 30 \<le> length fs
        \<and> process_frame model (fs ! 29) = Inr dets'
        \<and> upload_and_process_video self now j file_path feed_name = Inr (feed_id, s')
      \<longrightarrow> get_feed_results (worker_steps w model (next_ref self) 31 s') feed_id =
            Some \<lparr>ar_frame_count = 30, ar_vehicle_count = vehicle_count dets',
                    ar_vehicle_types = vehicle_types dets', ar_timestamp = utcnow w 30,
                    ar_detections = detections dets'\<rparr>
          \<and> get_feed_results
            (stop_feed (worker_steps w model (next_ref self) 31 s') feed_id) feed_id =
            Some \<lparr>ar_frame_count = 30, ar_vehicle_count = vehicle_count dets',
                    ar_vehicle_types = vehicle_types dets', ar_timestamp = utcnow w 30,
                    ar_detections = detections dets'\<rparr>
          \<and> active_processors
            (stop_feed (worker_steps w model (next_ref self) 31 s') feed_id) feed_id = None)"
proof (intro conjI impI)
  show "get_feed_results (new_service :: 'f video_analysis_service) x = None"
    by (simp add: get_feed_results_def new_service_def)
next
  assume "upload_and_process_video self now j file_path feed_name = Inr (feed_id, s')"
  then show "get_feed_results s' x = get_feed_results self x"
    by (auto simp: upload_and_process_video_def start_feed_def get_feed_results_def Let_def)
next
  assume "add_youtube_feed self now j youtube_url feed_name = Inr (feed_id, s'')"
  then show "get_feed_results s'' x = get_feed_results self x"
    by (auto simp: add_youtube_feed_def start_feed_def get_feed_results_def Let_def)
next
  show "get_feed_results (stop_feed self feed_id) x = get_feed_results self x"
    by (simp add: stop_feed_def get_feed_results_def split: option.splits)
next
  show "get_feed_results (worker_step w model r self) x = get_feed_results self x
      \<or> (\<exists>p t frame h dets.
            objects self r = Some p \<and> workers self r = Some t \<and> w_feed_id t = x
            \<and> phase t = Streaming \<and> read_frame (video_handler p) = Some (frame, h)
            \<and> Suc (frame_count p) mod 30 = 0 \<and> process_frame model frame = Inr dets
            \<and> get_feed_results (worker_step w model r self) x =
                Some \<lparr>ar_frame_count = Suc (frame_count p),
                      ar_vehicle_count = vehicle_count dets,
                      ar_vehicle_types = vehicle_types dets,
                      ar_timestamp = utcnow w (Suc (frame_count p)),
                      ar_detections = detections dets\<rparr>)"
    unfolding get_feed_results_def by (rule worker_step_results)
next
  assume a: "objects self r = Some p \<and> workers self r = Some t \<and> phase t = Streaming
        \<and> is_processing p \<and> \<not> stop_event p
        \<and> read_frame (video_handler p) = Some (frame, h)
        \<and> Suc (frame_count p) mod 30 = 0 \<and> process_frame model frame = Inr dets"
  then have "worker_step w model r self =
           (let n = frame_count p + 1;
                s1 = self\<lparr>objects := (objects self)(r \<mapsto> p\<lparr>video_handler := h, frame_count := n\<rparr>)\<rparr>
            in if n mod 30 = 0
               then process_yielded w model (w_feed_id t) (vp_junction_id p) frame n s1
               else s1)"
    by (intro worker_step_frame) simp_all
  with a show "get_feed_results (worker_step w model r self) (w_feed_id t) =
            Some \<lparr>ar_frame_count = Suc (frame_count p), ar_vehicle_count = vehicle_count dets,
                    ar_vehicle_types = vehicle_types dets, ar_timestamp = utcnow w (Suc (frame_count p)),
                    ar_detections = detections dets\<rparr>"
    by (simp add: Let_def process_yielded_def save_analysis_result_def get_feed_results_def)
next
  assume b: "path_exists w file_path \<and> video_capture w file_path = Some fs \<and> 30 \<le> length fs
        \<and> process_frame model (fs ! 29) = Inr dets'
        \<and> upload_and_process_video self now j file_path feed_name = Inr (feed_id, s')"
  then have ex: "path_exists w file_path" and vc: "video_capture w file_path = Some fs"
    and len: "30 \<le> length fs" and det: "process_frame model (fs ! 29) = Inr dets'"
    and up: "upload_and_process_video self now j file_path feed_name = Inr (feed_id, s')"
    by simp_all
  note fs = first_snapshot [OF ex vc len det up]
  from fs(3) obtain q where q: "objects (worker_steps w model (next_ref self) 31 s')
                                  (next_ref self) = Some q" ..
  note st = stop_feed_effect [OF fs(2) q]
  show "get_feed_results (worker_steps w model (next_ref self) 31 s') feed_id =
            Some \<lparr>ar_frame_count = 30, ar_vehicle_count = vehicle_count dets',
                    ar_vehicle_types = vehicle_types dets', ar_timestamp = utcnow w 30,
                    ar_detections = detections dets'\<rparr>"
    using fs(1) by (simp add: get_feed_results_def)
  show "get_feed_results
            (stop_feed (worker_steps w model (next_ref self) 31 s') feed_id) feed_id =
            Some \<lparr>ar_frame_count = 30, ar_vehicle_count = vehicle_count dets',
                    ar_vehicle_types = vehicle_types dets', ar_timestamp = utcnow w 30,
                    ar_detections = detections dets'\<rparr>"
    using fs(1) st(4) by (simp add: get_feed_results_def)
  show "active_processors
            (stop_feed (worker_steps w model (next_ref self) 31 s') feed_id) feed_id = None"
    by (rule st(2))
qed

theorem feed_results_last_published_witness:
  "(\<exists>s. upload_and_process_video (new_service :: nat video_analysis_service)
           1700000000 ''7'' ''/videos/7/a.mp4'' ''cam'' = Inr (''7_cam_1700000000'', s)
       \<and> get_feed_results s ''7_cam_1700000000'' = None
       \<and> map_option ar_frame_count
            (get_feed_results (worker_steps (recording_world 30) sample_model 0 31 s)
               ''7_cam_1700000000'') = Some 30
       \<and> map_option ar_vehicle_count
            (get_feed_results (worker_steps (recording_world 30) sample_model 0 31 s)
               ''7_cam_1700000000'') = Some 3
       \<and> map_option ar_vehicle_count
            (get_feed_results
               (stop_feed (worker_steps (recording_world 30) sample_model 0 31 s)
                  ''7_cam_1700000000'') ''7_cam_1700000000'') = Some 3)"
proof -
  let ?fid = "''7_cam_1700000000''"
  let ?new = "new_service :: nat video_analysis_service"
  let ?w = "recording_world 30"
  obtain s where up: "upload_and_process_video ?new 1700000000 ''7'' ''/videos/7/a.mp4'' ''cam''
                        = Inr (?fid, s)"
    by (simp add: upload_and_process_video_def start_feed_def make_feed_id_def py_str_def
        digit_char_def Let_def)
  obtain dets where det: "process_frame sample_model (replicate 30 1 ! 29) = Inr dets"
    and cnt: "vehicle_count dets = 3"
    by (simp add: process_frame_def sample_model_def process_box_def cv_vehicle_classes_def
        process_init_def)
  have ex: "path_exists ?w ''/videos/7/a.mp4''"
    and vc: "video_capture ?w ''/videos/7/a.mp4'' = Some (replicate 30 1)"
    by (simp_all add: recording_world_def)
  have n: "next_ref ?new = 0" by (simp add: new_service_def)
  note inst = feed_results_last_published
    [where x = ?fid and self = ?new and now = 1700000000 and j = "''7''"
       and file_path = "''/videos/7/a.mp4''" and feed_name = "''cam''" and feed_id = ?fid
       and s' = s and w = ?w and model = sample_model and fs = "replicate 30 1"
       and dets' = dets]
  from inst up have a: "get_feed_results s ?fid = None" by simp
  from inst up ex vc det cnt n
  have "map_option ar_frame_count (get_feed_results (worker_steps ?w sample_model 0 31 s) ?fid)
          = Some 30
        \<and> map_option ar_vehicle_count
             (get_feed_results (worker_steps ?w sample_model 0 31 s) ?fid) = Some 3
        \<and> map_option ar_vehicle_count
             (get_feed_results (stop_feed (worker_steps ?w sample_model 0 31 s) ?fid) ?fid)
            = Some 3"
    by simp
  with up a show ?thesis by blast
qed

end
